theory Spec2Isabelle
  imports Complex_Main "HOL-Library.AList"
begin

section \<open>Python values, exceptions and the libraries the program calls\<close>

text \<open>
  The two Streamlit scripts (\<^verbatim>\<open>jewelryapp.py\<close>, the generic shop, and \<^verbatim>\<open>app_rick.py\<close>, the
  Rick Terry variant) keep two pandas data frames and recompute a few derived columns.
  Exceptions are values: a computation that may raise returns \<open>exn + 'a\<close>, with \<open>Inl\<close>
  the exception. Every constructor of \<open>exn\<close> is a subclass of Python's \<^verbatim>\<open>Exception\<close>, so
  \<^verbatim>\<open>except Exception\<close> catches each of them.
\<close>

datatype exn =
  ValueError | TypeError | OverflowError | KeyError | AttributeError | ReError | ParserError

text \<open>
  Floats are modelled by the reals they denote: rounding and the infinities of IEEE
  doubles are outside the model. The missing value of pandas (NaN) is a value of its own
  wherever pandas can produce it.
\<close>

datatype pyval = PyNone | PyInt int | PyFloat real | PyStr string

record date =
  year :: nat
  month :: nat
  day :: nat

text \<open>\<^verbatim>\<open>a < b\<close> on two \<^verbatim>\<open>datetime.date\<close> values: the calendar order.\<close>

definition date_lt :: "date \<Rightarrow> date \<Rightarrow> bool" where
  "date_lt a b \<longleftrightarrow>
     year a < year b \<or>
     (year a = year b \<and> (month a < month b \<or> (month a = month b \<and> day a < day b)))"

text \<open>
  What \<^verbatim>\<open>pd.to_datetime(s).date()\<close> returns when it returns: a calendar date, or pandas'
  not-a-time value \<^verbatim>\<open>NaT\<close> (for texts such as \<^verbatim>\<open>nan\<close>), whose \<^verbatim>\<open>date()\<close> is \<^verbatim>\<open>NaT\<close> again.
\<close>

datatype tstamp = NaT | Date date

text \<open>
  The builtins and pandas functions the scripts call are not part of the repository.
  They are taken as parameters, collected in one record, and every theorem below holds
  for each value of it:
  \<^item> \<open>float_of_str\<close>: the builtin \<^verbatim>\<open>float\<close> on a \<^verbatim>\<open>str\<close>; \<open>None\<close> is its \<^verbatim>\<open>ValueError\<close>;
  \<^item> \<open>to_numeric_str\<close>: \<^verbatim>\<open>pd.to_numeric\<close> on one text cell; \<open>None\<close> is a text that is not a
    number (which \<^verbatim>\<open>errors="coerce"\<close> turns into NaN);
  \<^item> \<open>to_datetime\<close>: \<^verbatim>\<open>pd.to_datetime(s).date()\<close>, which may raise;
  \<^item> \<open>nat_lt_date\<close>: \<^verbatim>\<open>NaT < d\<close> for a \<^verbatim>\<open>datetime.date\<close> \<open>d\<close>, which pandas before 2.0 answers
    with \<^verbatim>\<open>False\<close> and pandas from 2.0 on with a \<^verbatim>\<open>TypeError\<close>; the repository pins no
    version;
  \<^item> \<open>re_compile\<close>: \<^verbatim>\<open>re.compile(q)\<close>, which raises on a malformed pattern and otherwise
    gives the pattern's \<^verbatim>\<open>search\<close> as a predicate on texts;
  \<^item> \<open>str_of_float\<close>: \<^verbatim>\<open>str\<close> of a float;
  \<^item> \<open>today\<close>: \<^verbatim>\<open>date.today()\<close>, the clock read at this run.
\<close>

record pylib =
  float_of_str :: "string \<Rightarrow> real option"
  to_numeric_str :: "string \<Rightarrow> real option"
  to_datetime :: "string \<Rightarrow> exn + tstamp"
  nat_lt_date :: "date \<Rightarrow> exn + bool"
  re_compile :: "string \<Rightarrow> exn + (string \<Rightarrow> bool)"
  str_of_float :: "real \<Rightarrow> string"
  today :: date

text \<open>\<^verbatim>\<open>try: return body  except Exception: return d\<close>\<close>

definition try_except :: "exn + 'a \<Rightarrow> 'a \<Rightarrow> exn + 'a" where
  "try_except body d = (case body of Inl e \<Rightarrow> Inr d | Inr v \<Rightarrow> Inr v)"

subsection \<open>Text helpers\<close>

text \<open>\<^verbatim>\<open>str.isspace\<close> on one ASCII character: tab to carriage return, the four
  separators 28 to 31, and the blank.\<close>

definition is_space :: "char \<Rightarrow> bool" where
  "is_space c \<longleftrightarrow> (let n = (of_char c :: nat) in (9 \<le> n \<and> n \<le> 13) \<or> (28 \<le> n \<and> n \<le> 32))"

definition strip :: "string \<Rightarrow> string" where
  "strip s = rev (dropWhile is_space (rev (dropWhile is_space s)))"

definition lower_char :: "char \<Rightarrow> char" where
  "lower_char c =
     (let n = (of_char c :: nat) in if 65 \<le> n \<and> n \<le> 90 then char_of (n + 32) else c)"

text \<open>\<^verbatim>\<open>str.lower\<close>, on ASCII letters.\<close>

definition lower :: "string \<Rightarrow> string" where
  "lower s = map lower_char s"

subsection \<open>Helpers of both scripts\<close>





definition compute_remaining :: "real \<Rightarrow> real \<Rightarrow> real" where
  "compute_remaining tot deposit = (let rem = tot - deposit in if rem \<ge> 0 then rem else 0)"

text \<open>
  \<^verbatim>\<open>parse_date\<close>: the conversion runs only on a \<^verbatim>\<open>str\<close> that is not blank; every exception
  of the conversion is caught and becomes \<^verbatim>\<open>None\<close>.
\<close>

definition parse_date :: "pylib \<Rightarrow> pyval \<Rightarrow> exn + tstamp option" where
  "parse_date L s =
     try_except
       (case s of
          PyStr t \<Rightarrow>
            if strip t \<noteq> [] then (case to_datetime L t of Inl e \<Rightarrow> Inl e | Inr d \<Rightarrow> Inr (Some d))
            else Inr None
        | _ \<Rightarrow> Inr None)
       None"

text \<open>
  \<^verbatim>\<open>d and d < date.today()\<close>, which stands outside every \<^verbatim>\<open>try\<close>: \<^verbatim>\<open>None\<close> is false; a date
  is true and is compared; \<^verbatim>\<open>NaT\<close> is true as well, so it is compared too, and that
  comparison is the library's.
\<close>

definition before_today :: "pylib \<Rightarrow> tstamp option \<Rightarrow> exn + bool" where
  "before_today L d =
     (case d of
        None \<Rightarrow> Inr False
      | Some NaT \<Rightarrow> nat_lt_date L (today L)
      | Some (Date x) \<Rightarrow> Inr (date_lt x (today L)))"

definition is_overdue :: "pylib \<Rightarrow> string \<Rightarrow> string \<Rightarrow> exn + string" where
  "is_overdue L due_str status =
     (if status = ''Completed'' then Inr ''No''
      else (case parse_date L (PyStr due_str) of
              Inl e \<Rightarrow> Inl e
            | Inr d \<Rightarrow>
                (case before_today L d of
                   Inl e \<Rightarrow> Inl e
                 | Inr b \<Rightarrow> if b then Inr ''Yes'' else Inr ''No'')))"


section \<open>Data frames\<close>

text \<open>
  A cell of a frame is a text, a number or pandas' missing value. A row is a dictionary
  from column names to cells, kept as an association list; a frame is its list of
  column names and its rows in order. A row that has no entry for a column (after two
  frames with different columns are concatenated) reads as NaN there.
\<close>

datatype cell = Str string | Num real | NaN

type_synonym row = "(string \<times> cell) list"

record dataframe =
  columns :: "string list"
  rows :: "row list"

definition cell_at :: "row \<Rightarrow> string \<Rightarrow> cell" where
  "cell_at r c = (case map_of r c of None \<Rightarrow> NaN | Some v \<Rightarrow> v)"

text \<open>Sequencing of computations that may raise.\<close>

definition bind_exn :: "exn + 'a \<Rightarrow> ('a \<Rightarrow> exn + 'b) \<Rightarrow> exn + 'b" where
  "bind_exn m f = (case m of Inl e \<Rightarrow> Inl e | Inr v \<Rightarrow> f v)"

fun traverse :: "('a \<Rightarrow> exn + 'b) \<Rightarrow> 'a list \<Rightarrow> exn + 'b list" where
  "traverse f [] = Inr []"
| "traverse f (x # xs) = bind_exn (f x) (\<lambda>y. bind_exn (traverse f xs) (\<lambda>ys. Inr (y # ys)))"

text \<open>\<^verbatim>\<open>df[c]\<close>: the column, or \<^verbatim>\<open>KeyError\<close>.\<close>

definition getitem :: "dataframe \<Rightarrow> string \<Rightarrow> exn + cell list" where
  "getitem df c =
     (if c \<in> set (columns df) then Inr (map (\<lambda>r. cell_at r c) (rows df)) else Inl KeyError)"

text \<open>\<^verbatim>\<open>df.get(c, default)\<close>: \<open>None\<close> stands for the default.\<close>

definition df_get :: "dataframe \<Rightarrow> string \<Rightarrow> cell list option" where
  "df_get df c =
     (if c \<in> set (columns df) then Some (map (\<lambda>r. cell_at r c) (rows df)) else None)"

text \<open>\<^verbatim>\<open>df[c] = values\<close>: the column is replaced where it stands, or added as the last one.\<close>

definition set_column :: "string \<Rightarrow> cell list \<Rightarrow> dataframe \<Rightarrow> dataframe" where
  "set_column c vs df =
     df\<lparr>columns := (if c \<in> set (columns df) then columns df else columns df @ [c]),
        rows := map2 (\<lambda>r v. AList.update c v r) (rows df) vs\<rparr>"

text \<open>\<^verbatim>\<open>df[mask]\<close>: the rows whose mask entry is true, in their order.\<close>

definition loc_mask :: "bool list \<Rightarrow> dataframe \<Rightarrow> dataframe" where
  "loc_mask m df = df\<lparr>rows := map fst (filter snd (zip (rows df) m))\<rparr>"

text \<open>\<^verbatim>\<open>r.get(c, "")\<close> on a row \<open>r\<close> of the frame \<open>df\<close>.\<close>

definition row_get :: "dataframe \<Rightarrow> row \<Rightarrow> string \<Rightarrow> cell" where
  "row_get df r c = (if c \<in> set (columns df) then cell_at r c else Str [])"

text \<open>\<^verbatim>\<open>str(x)\<close> of a cell, which is also what \<^verbatim>\<open>astype(str)\<close> gives.\<close>

definition str_cell :: "pylib \<Rightarrow> cell \<Rightarrow> string" where
  "str_cell L c = (case c of Str s \<Rightarrow> s | Num x \<Rightarrow> str_of_float L x | NaN \<Rightarrow> ''nan'')"


subsection \<open>Numeric columns\<close>

definition to_numeric_coerce :: "pylib \<Rightarrow> cell \<Rightarrow> cell" where
  "to_numeric_coerce L c =
     (case c of
        Str s \<Rightarrow> (case to_numeric_str L s of None \<Rightarrow> NaN | Some x \<Rightarrow> Num x)
      | Num x \<Rightarrow> Num x
      | NaN \<Rightarrow> NaN)"

definition fillna :: "real \<Rightarrow> cell \<Rightarrow> cell" where
  "fillna d c = (case c of NaN \<Rightarrow> Num d | _ \<Rightarrow> c)"

text \<open>\<^verbatim>\<open>pd.to_numeric(col, errors="coerce").fillna(0.0)\<close>\<close>

definition coerce_series :: "pylib \<Rightarrow> cell list \<Rightarrow> cell list" where
  "coerce_series L col = map (\<lambda>c. fillna 0 (to_numeric_coerce L c)) col"

text \<open>
  The difference of two float columns, its \<^verbatim>\<open>clip(lower=...)\<close>, and the function the
  scripts apply to the remaining balance. They run on float columns only, whose cells are
  numbers or NaN.
\<close>

definition sub_cell :: "cell \<Rightarrow> cell \<Rightarrow> cell" where
  "sub_cell a b = (case (a, b) of (Num x, Num y) \<Rightarrow> Num (x - y) | _ \<Rightarrow> NaN)"

definition clip_lower :: "real \<Rightarrow> cell \<Rightarrow> cell" where
  "clip_lower lo c = (case c of Num x \<Rightarrow> Num (if x < lo then lo else x) | _ \<Rightarrow> c)"

definition paid_flag :: "cell \<Rightarrow> cell" where
  "paid_flag x = Str (if x = Num 0 then ''Yes'' else ''No'')"

text \<open>
  \<^verbatim>\<open>app_rick.py\<close>, the views: \<^verbatim>\<open>df[c] = pd.to_numeric(df.get(c, 0), errors="coerce").fillna(0.0)\<close>.
  Without the column \<^verbatim>\<open>to_numeric\<close> gets the scalar 0 and returns a scalar, which has no
  \<^verbatim>\<open>fillna\<close>.
\<close>

definition coerce_get :: "pylib \<Rightarrow> string \<Rightarrow> dataframe \<Rightarrow> exn + dataframe" where
  "coerce_get L c df =
     (case df_get df c of
        None \<Rightarrow> Inl AttributeError
      | Some col \<Rightarrow> Inr (set_column c (coerce_series L col) df))"

text \<open>The add and edit handlers: \<^verbatim>\<open>df[c] = pd.to_numeric(df[c], errors="coerce").fillna(0.0)\<close>\<close>

definition coerce_idx :: "pylib \<Rightarrow> string \<Rightarrow> dataframe \<Rightarrow> exn + dataframe" where
  "coerce_idx L c df = bind_exn (getitem df c) (\<lambda>col. Inr (set_column c (coerce_series L col) df))"

text \<open>jewelryapp.py, the views: \<^verbatim>\<open>if col in df.columns: df[col] = ...\<close>\<close>

definition coerce_if_present :: "pylib \<Rightarrow> string \<Rightarrow> dataframe \<Rightarrow> dataframe" where
  "coerce_if_present L c df =
     (if c \<in> set (columns df)
      then set_column c (coerce_series L (map (\<lambda>r. cell_at r c) (rows df))) df
      else df)"

text \<open>
  \<^verbatim>\<open>df["Remaining_Balance"] = (df["Total_Price"] - df["Deposit_Paid"]).clip(lower=0.0)\<close>
  \<^verbatim>\<open>df["Paid"] = df["Remaining_Balance"].apply(lambda x: "Yes" if float(x) == 0 else "No")\<close>
\<close>

definition derive_balance :: "dataframe \<Rightarrow> exn + dataframe" where
  "derive_balance df =
     bind_exn (getitem df ''Total_Price'') (\<lambda>tp.
     bind_exn (getitem df ''Deposit_Paid'') (\<lambda>dp.
       let df1 = set_column ''Remaining_Balance'' (map (clip_lower 0) (map2 sub_cell tp dp)) df
       in bind_exn (getitem df1 ''Remaining_Balance'') (\<lambda>rb.
            Inr (set_column ''Paid'' (map paid_flag rb) df1))))"

text \<open>
  \<^verbatim>\<open>df["Overdue"] = df.apply(lambda r: is_overdue(str(r.get(date_col, "")), str(r.get("Status", ""))), axis=1)\<close>
  with \<open>date_col\<close> the column \<^verbatim>\<open>Due_Date\<close> (custom jobs) or \<^verbatim>\<open>Promised_Date\<close> (repairs).
\<close>

definition derive_overdue :: "pylib \<Rightarrow> string \<Rightarrow> dataframe \<Rightarrow> exn + dataframe" where
  "derive_overdue L date_col df =
     bind_exn
       (traverse
          (\<lambda>r. is_overdue L (str_cell L (row_get df r date_col))
                             (str_cell L (row_get df r ''Status'')))
          (rows df))
       (\<lambda>flags. Inr (set_column ''Overdue'' (map Str flags) df))"

text \<open>The recomputation of \<^verbatim>\<open>app_rick.py\<close> in the views: the four statements on the numbers
  (lines 241-244 and 407-410), then the one on the overdue flag (lines 245 and 411).\<close>

definition balance_view_rick :: "pylib \<Rightarrow> dataframe \<Rightarrow> exn + dataframe" where
  "balance_view_rick L df =
     bind_exn (coerce_get L ''Total_Price'' df) (\<lambda>df1.
     bind_exn (coerce_get L ''Deposit_Paid'' df1) derive_balance)"

definition recompute_view_rick :: "pylib \<Rightarrow> string \<Rightarrow> dataframe \<Rightarrow> exn + dataframe" where
  "recompute_view_rick L date_col df =
     bind_exn (balance_view_rick L df) (derive_overdue L date_col)"

text \<open>The recomputation of \<^verbatim>\<open>app_rick.py\<close> after an insert (lines 220-224) and after an edit
  (lines 304-308), in the same two parts.\<close>

definition balance_save_rick :: "pylib \<Rightarrow> dataframe \<Rightarrow> exn + dataframe" where
  "balance_save_rick L df =
     bind_exn (coerce_idx L ''Total_Price'' df) (\<lambda>df1.
     bind_exn (coerce_idx L ''Deposit_Paid'' df1) derive_balance)"

definition recompute_save_rick :: "pylib \<Rightarrow> string \<Rightarrow> dataframe \<Rightarrow> exn + dataframe" where
  "recompute_save_rick L date_col df =
     bind_exn (balance_save_rick L df) (derive_overdue L date_col)"

text \<open>The recomputation of jewelryapp.py in the views (lines 218-224).\<close>

definition recompute_view_jewelry :: "pylib \<Rightarrow> dataframe \<Rightarrow> exn + dataframe" where
  "recompute_view_jewelry L df =
     derive_balance
       (coerce_if_present L ''Remaining_Balance''
          (coerce_if_present L ''Deposit_Paid''
             (coerce_if_present L ''Total_Price'' df)))"

text \<open>The recomputation of jewelryapp.py after an edit (lines 290-293).\<close>

definition recompute_save_jewelry :: "pylib \<Rightarrow> dataframe \<Rightarrow> exn + dataframe" where
  "recompute_save_jewelry L df =
     bind_exn (coerce_idx L ''Total_Price'' df) (\<lambda>df1.
     bind_exn (coerce_idx L ''Deposit_Paid'' df1) derive_balance)"


section \<open>Filters\<close>

text \<open>\<^verbatim>\<open>col.isin(values)\<close> with a list of texts, and \<^verbatim>\<open>col == "text"\<close>, on one cell.\<close>

definition isin :: "string list \<Rightarrow> cell \<Rightarrow> bool" where
  "isin vs c = (case c of Str s \<Rightarrow> s \<in> set vs | _ \<Rightarrow> False)"

definition eq_str :: "string \<Rightarrow> cell \<Rightarrow> bool" where
  "eq_str s c \<longleftrightarrow> c = Str s"

text \<open>
  \<^verbatim>\<open>df[c].astype(str).str.lower().str.contains(q)\<close>. \<^verbatim>\<open>str.contains\<close> is called with its
  defaults, so it compiles \<open>q\<close> as a regular expression and searches each text with it.
\<close>

definition contains_mask :: "pylib \<Rightarrow> dataframe \<Rightarrow> string \<Rightarrow> string \<Rightarrow> exn + bool list" where
  "contains_mask L df c q =
     bind_exn (getitem df c) (\<lambda>col.
     bind_exn (re_compile L q) (\<lambda>m.
       Inr (map (\<lambda>x. m (lower (str_cell L x))) col)))"

text \<open>The masks of the searched columns joined with \<^verbatim>\<open>|\<close>, from left to right (the scripts
  search three or four columns; no column gives the mask that is false everywhere).\<close>

fun search_mask :: "pylib \<Rightarrow> dataframe \<Rightarrow> string \<Rightarrow> string list \<Rightarrow> exn + bool list" where
  "search_mask L df q [] = Inr (replicate (length (rows df)) False)"
| "search_mask L df q (c # cs) =
     bind_exn (contains_mask L df c q) (\<lambda>m.
     bind_exn (search_mask L df q cs) (\<lambda>ms.
       Inr (map2 (\<or>) m ms)))"

text \<open>\<^verbatim>\<open>df = df[df[c] == v]\<close>\<close>

definition select_eq :: "string \<Rightarrow> string \<Rightarrow> dataframe \<Rightarrow> exn + dataframe" where
  "select_eq c v df = bind_exn (getitem df c) (\<lambda>col. Inr (loc_mask (map (eq_str v) col) df))"

text \<open>The search box: \<^verbatim>\<open>if f_search.strip(): q = f_search.strip().lower(); df = df[mask]\<close>\<close>

definition apply_search :: "pylib \<Rightarrow> string list \<Rightarrow> string \<Rightarrow> dataframe \<Rightarrow> exn + dataframe" where
  "apply_search L search_cols f_search df =
     (if strip f_search \<noteq> []
      then (let q = lower (strip f_search)
            in bind_exn (search_mask L df q search_cols) (\<lambda>mask. Inr (loc_mask mask df)))
      else Inr df)"

record filter_spec =
  f_status :: "string list"
  f_owner :: "string list"
  f_overdue :: string
  f_search :: string

text \<open>
  The filters of \<^verbatim>\<open>app_rick.py\<close>. The two tabs differ in the column of the owner
  (\<^verbatim>\<open>Phase_Owner\<close>, \<^verbatim>\<open>Assigned_To\<close>) and in the searched columns.
\<close>

definition rick_filter ::
  "pylib \<Rightarrow> string \<Rightarrow> string list \<Rightarrow> filter_spec \<Rightarrow> dataframe \<Rightarrow> exn + dataframe" where
  "rick_filter L owner_col search_cols fs df =
     bind_exn (getitem df ''Status'') (\<lambda>st.
       let df1 = loc_mask (map (isin (f_status fs)) st) df
       in bind_exn (getitem df1 owner_col) (\<lambda>ow.
            let df2 = loc_mask (map (isin (f_owner fs)) ow) df1
            in bind_exn
                 (if f_overdue fs = ''Only overdue'' then select_eq ''Overdue'' ''Yes'' df2
                  else if f_overdue fs = ''Not overdue'' then select_eq ''Overdue'' ''No'' df2
                  else Inr df2)
                 (apply_search L search_cols (f_search fs))))"

definition custom_filter_rick :: "pylib \<Rightarrow> filter_spec \<Rightarrow> dataframe \<Rightarrow> exn + dataframe" where
  "custom_filter_rick L = rick_filter L ''Phase_Owner'' [''Job_ID'', ''Client'', ''Item'']"

definition repair_filter_rick :: "pylib \<Rightarrow> filter_spec \<Rightarrow> dataframe \<Rightarrow> exn + dataframe" where
  "repair_filter_rick L =
     rick_filter L ''Assigned_To'' [''Job_ID'', ''Client'', ''Item'', ''Repair_Type'']"

record jfilter_spec =
  j_status :: "string list"
  j_paid :: string
  j_search :: string

text \<open>The filter of the custom tab of \<^verbatim>\<open>jewelryapp.py\<close> (lines 227-240).\<close>

definition custom_filter_jewelry :: "pylib \<Rightarrow> jfilter_spec \<Rightarrow> dataframe \<Rightarrow> exn + dataframe" where
  "custom_filter_jewelry L fs df =
     bind_exn (getitem df ''Status'') (\<lambda>st.
       let df1 = loc_mask (map (isin (j_status fs)) st) df
       in bind_exn
            (if j_paid fs = ''Paid'' then select_eq ''Paid'' ''Yes'' df1
             else if j_paid fs = ''Unpaid'' then select_eq ''Paid'' ''No'' df1
             else Inr df1)
            (apply_search L [''Job_ID'', ''Client'', ''Item''] (j_search fs)))"

section \<open>Histograms\<close>

definition CUSTOM_STATUSES :: "string list" where
  "CUSTOM_STATUSES =
     [''Consultation'', ''Design Sketch'', ''CAD Modeling'', ''3D Approval'', ''Casting'',
      ''Stone Setting'', ''Final Polish'', ''Ready for Pickup'', ''Completed'']"

definition REPAIR_STATUSES :: "string list" where
  "REPAIR_STATUSES =
     [''Intake'', ''Waiting for Parts'', ''In Progress'', ''Quality Check'',
      ''Ready for Pickup'', ''Completed'']"

definition BENCH_TEAM :: "string list" where
  "BENCH_TEAM = [''Bench-1'', ''Bench-2'', ''Bench-3'', ''Bench-4'']"

text \<open>
  \<^verbatim>\<open>col.value_counts()\<close>: every value of the column that is not missing, once, with the
  number of its occurrences (pandas sorts them by that number; \<^verbatim>\<open>reindex\<close> then looks
  them up by value). \<^verbatim>\<open>reindex(keys, fill_value=fill)\<close>: the count of each key, in the order
  of the keys, \<open>fill\<close> for a key that has none.
\<close>

definition value_counts :: "cell list \<Rightarrow> (cell \<times> nat) list" where
  "value_counts col = map (\<lambda>v. (v, count_list col v)) (remdups (filter (\<lambda>c. c \<noteq> NaN) col))"

definition reindex :: "string list \<Rightarrow> nat \<Rightarrow> (cell \<times> nat) list \<Rightarrow> (string \<times> nat) list" where
  "reindex keys fill vc =
     map (\<lambda>k. (k, case map_of vc (Str k) of None \<Rightarrow> fill | Some n \<Rightarrow> n)) keys"

text \<open>\<^verbatim>\<open>df["Status"].value_counts().reindex(stages, fill_value=0)\<close>\<close>

definition stage_counts :: "string list \<Rightarrow> dataframe \<Rightarrow> exn + (string \<times> nat) list" where
  "stage_counts stages df =
     bind_exn (getitem df ''Status'') (\<lambda>col. Inr (reindex stages 0 (value_counts col)))"

text \<open>Repair load by bench (\<^verbatim>\<open>app_rick.py\<close>, lines 479-481).\<close>

definition bench_load :: "dataframe \<Rightarrow> exn + (string \<times> nat) list" where
  "bench_load df =
     bind_exn (getitem df ''Status'') (\<lambda>st.
       let load = loc_mask (map (\<lambda>c. c \<noteq> Str ''Completed'') st) df
       in bind_exn (getitem load ''Assigned_To'') (\<lambda>a.
            Inr (reindex BENCH_TEAM 0 (value_counts a))))"

section \<open>The store and its handlers\<close>


record custom_form =
  job_id :: string
  client :: string
  item :: string
  assigned :: string
  complexity :: string
  status :: string
  intake_date :: date
  due_date :: "date option"
  total_price :: pyval
  deposit_paid :: pyval
  notes_text :: string








subsection \<open>Loading (\<^verbatim>\<open>jewelryapp.py\<close>)\<close>





subsection \<open>Adding a custom job\<close>





subsection \<open>Saving the edited table\<close>



section \<open>The recomputation, row by row\<close>

text \<open>
  The scripts compute column by column. The definitions of this section say what one
  record becomes; the lemmas below prove that the column-wise code computes exactly
  this, and the theorems are stated on the code.
  \<open>coerced\<close> is the number that \<^verbatim>\<open>pd.to_numeric(..., errors="coerce").fillna(0.0)\<close> leaves
  in a cell, \<open>overdue_fails\<close> says when \<^verbatim>\<open>is_overdue\<close> raises and \<open>overdue_text\<close> is the flag
  it returns otherwise, \<open>add_col\<close> is the column list after an assignment to a column.
\<close>

definition coerced :: "pylib \<Rightarrow> cell \<Rightarrow> real" where
  "coerced L c = (case to_numeric_coerce L c of Num v \<Rightarrow> v | _ \<Rightarrow> 0)"

definition overdue_fails :: "pylib \<Rightarrow> string \<Rightarrow> string \<Rightarrow> bool" where
  "overdue_fails L due st \<longleftrightarrow>
     st \<noteq> ''Completed'' \<and> strip due \<noteq> [] \<and> to_datetime L due = Inr NaT \<and>
     isl (nat_lt_date L (today L))"

definition overdue_text :: "pylib \<Rightarrow> string \<Rightarrow> string \<Rightarrow> string" where
  "overdue_text L due st =
     (if st = ''Completed'' then ''No''
      else if strip due \<noteq> [] \<and>
              (case to_datetime L due of
                 Inl e \<Rightarrow> False
               | Inr NaT \<Rightarrow> nat_lt_date L (today L) = Inr True
               | Inr (Date x) \<Rightarrow> date_lt x (today L))
      then ''Yes'' else ''No'')"

text \<open>\<^verbatim>\<open>is_overdue\<close> raises on the record \<open>r\<close> of the frame \<open>df\<close> whose date column is
  \<open>dc\<close>.\<close>

definition row_fails :: "pylib \<Rightarrow> string \<Rightarrow> dataframe \<Rightarrow> row \<Rightarrow> bool" where
  "row_fails L dc df r \<longleftrightarrow>
     overdue_fails L (str_cell L (row_get df r dc)) (str_cell L (row_get df r ''Status''))"

definition add_col :: "string \<Rightarrow> string list \<Rightarrow> string list" where
  "add_col c cs = (if c \<in> set cs then cs else cs @ [c])"

definition balance_row :: "pylib \<Rightarrow> row \<Rightarrow> row" where
  "balance_row L r =
     (let t = coerced L (cell_at r ''Total_Price''); d = coerced L (cell_at r ''Deposit_Paid'');
          rem = (if t - d < 0 then 0 else t - d)
      in AList.update ''Paid'' (paid_flag (Num rem))
           (AList.update ''Remaining_Balance'' (Num rem)
             (AList.update ''Deposit_Paid'' (Num d)
               (AList.update ''Total_Price'' (Num t) r))))"

definition overdue_row :: "pylib \<Rightarrow> string \<Rightarrow> string list \<Rightarrow> row \<Rightarrow> row" where
  "overdue_row L dc cols r =
     AList.update ''Overdue''
       (Str (overdue_text L (str_cell L (if dc \<in> set cols then cell_at r dc else Str []))
                            (str_cell L (if ''Status'' \<in> set cols then cell_at r ''Status'' else Str []))))
       r"

definition rick_row :: "pylib \<Rightarrow> string \<Rightarrow> string list \<Rightarrow> row \<Rightarrow> row" where
  "rick_row L dc cols r =
     overdue_row L dc (add_col ''Paid'' (add_col ''Remaining_Balance'' cols)) (balance_row L r)"

definition coerce_both :: "pylib \<Rightarrow> dataframe \<Rightarrow> dataframe" where
  "coerce_both L df =
     df\<lparr>rows := map (\<lambda>r. AList.update ''Deposit_Paid'' (Num (coerced L (cell_at r ''Deposit_Paid'')))
                        (AList.update ''Total_Price'' (Num (coerced L (cell_at r ''Total_Price''))) r)) (rows df)\<rparr>"

section \<open>Values for the examples\<close>

text \<open>\<^verbatim>\<open>p in s\<close> on texts.\<close>

fun contains :: "string \<Rightarrow> string \<Rightarrow> bool" where
  "contains p [] = (p = [])"
| "contains p (x # xs) = (take (length p) (x # xs) = p \<or> contains p xs)"

text \<open>
  A library value for the examples. It answers as Python and pandas do on the texts the
  examples contain: \<^verbatim>\<open>100\<close> is a number and \<^verbatim>\<open>n/a\<close> is not; \<^verbatim>\<open>2024-03-05\<close> is a date,
  \<^verbatim>\<open>nan\<close> converts to \<^verbatim>\<open>NaT\<close>, other texts fail in the date parser; comparing \<^verbatim>\<open>NaT\<close> with a
  date raises, as in pandas from 2.0 on; a pattern of letters searches for itself and
  the pattern \<^verbatim>\<open>(\<close> does not compile; the day is 2024-03-10.
  It stands for nothing beyond these examples.
\<close>

definition sample_lib :: pylib where
  "sample_lib =
     \<lparr>float_of_str = (\<lambda>s. if s = ''100'' then Some 100 else None),
      to_numeric_str = (\<lambda>s. if s = ''100'' then Some 100 else None),
      to_datetime = (\<lambda>s. if s = ''2024-03-05'' then Inr (Date \<lparr>year = 2024, month = 3, day = 5\<rparr>)
                          else if s = ''nan'' then Inr NaT else Inl ParserError),
      nat_lt_date = (\<lambda>d. Inl TypeError),
      re_compile = (\<lambda>p. if p = ''('' then Inl ReError else Inr (contains p)),
      str_of_float = (\<lambda>x. ''0.0''),
      today = \<lparr>year = 2024, month = 3, day = 10\<rparr>\<rparr>"

text \<open>Two custom jobs of the Rick Terry shop as a file can hold them: a price read as
  text, and stored derived fields that no longer fit the other fields.\<close>

definition sample_custom :: dataframe where
  "sample_custom =
     \<lparr>columns = [''Job_ID'', ''Client'', ''Item'', ''Phase_Owner'', ''Status'', ''Due_Date'',
                 ''Total_Price'', ''Deposit_Paid'', ''Remaining_Balance'', ''Paid'', ''Overdue''],
      rows =
        [[(''Job_ID'', Str ''C-RT-1001''), (''Client'', Str ''Ann Lee''), (''Item'', Str ''Engagement ring''),
          (''Phase_Owner'', Str ''CAD-1''), (''Status'', Str ''CAD Modeling''), (''Due_Date'', Str ''2024-03-05''),
          (''Total_Price'', Str ''100''), (''Deposit_Paid'', Num 40), (''Remaining_Balance'', Num 999),
          (''Paid'', Str ''Yes''), (''Overdue'', Str ''No'')],
         [(''Job_ID'', Str ''C-RT-1002''), (''Client'', Str ''Bo Diaz''), (''Item'', Str ''Pendant''),
          (''Phase_Owner'', Str ''Bench-2''), (''Status'', Str ''Completed''), (''Due_Date'', Str ''2024-03-05''),
          (''Total_Price'', Str ''n/a''), (''Deposit_Paid'', Num 0), (''Remaining_Balance'', Num 5),
          (''Paid'', Str ''No''), (''Overdue'', Str ''Yes'')]]\<rparr>"

text \<open>A custom job of the Rick Terry shop that was added without a due date, as the file
  gives it back: the empty cell is read as NaN.\<close>

definition sample_undated :: dataframe where
  "sample_undated =
     \<lparr>columns = [''Job_ID'', ''Client'', ''Item'', ''Phase_Owner'', ''Status'', ''Due_Date'',
                 ''Total_Price'', ''Deposit_Paid'', ''Remaining_Balance'', ''Paid'', ''Overdue''],
      rows =
        [[(''Job_ID'', Str ''C-RT-1003''), (''Client'', Str ''Di Ray''), (''Item'', Str ''Brooch''),
          (''Phase_Owner'', Str ''CAD-2''), (''Status'', Str ''CAD Modeling''), (''Due_Date'', NaN),
          (''Total_Price'', Num 100), (''Deposit_Paid'', Num 40), (''Remaining_Balance'', Num 60),
          (''Paid'', Str ''No''), (''Overdue'', Str ''No'')]]\<rparr>"

section \<open>What the claims say of a record\<close>

text \<open>The balance and the paid flag of a record \<open>r\<close> fit the price \<open>t\<close> and the deposit
  \<open>d\<close>.\<close>

definition balance_ok :: "real \<Rightarrow> real \<Rightarrow> row \<Rightarrow> bool" where
  "balance_ok t d r \<longleftrightarrow>
     cell_at r ''Total_Price'' = Num t \<and> cell_at r ''Deposit_Paid'' = Num d \<and>
     cell_at r ''Remaining_Balance'' = Num (max 0 (t - d)) \<and>
     (cell_at r ''Paid'' = Str ''Yes'' \<longleftrightarrow> cell_at r ''Remaining_Balance'' = Num 0) \<and>
     (cell_at r ''Paid'' = Str ''Yes'' \<or> cell_at r ''Paid'' = Str ''No'')"

text \<open>The frame \<open>df'\<close> has the records of \<open>df\<close> in their order, changed in no other
  column than the two numeric and the three derived ones, and the columns of \<open>df\<close>
  followed by the derived columns it lacked.\<close>

definition frame_kept :: "dataframe \<Rightarrow> dataframe \<Rightarrow> bool" where
  "frame_kept df df' \<longleftrightarrow>
     length (rows df') = length (rows df) \<and>
     (\<exists>extra. columns df' = columns df @ extra \<and>
              set extra \<subseteq> {''Remaining_Balance'', ''Paid'', ''Overdue''}) \<and>
     (\<forall>i < length (rows df). \<forall>c.
        c \<notin> {''Total_Price'', ''Deposit_Paid'', ''Remaining_Balance'', ''Paid'', ''Overdue''}
        \<longrightarrow> map_of (rows df' ! i) c = map_of (rows df ! i) c)"

section \<open>The filters, record by record\<close>

text \<open>
  What the filter code amounts to on one record, and the exception it raises instead,
  which depends on the columns and on the query only: \<^verbatim>\<open>KeyError\<close> for a column the frame
  lacks, the error of \<^verbatim>\<open>re.compile\<close> for a query that is not a regular expression.
\<close>

fun search_err :: "pylib \<Rightarrow> string list \<Rightarrow> string \<Rightarrow> string list \<Rightarrow> exn option" where
  "search_err L cols q [] = None"
| "search_err L cols q (c # cs) =
     (if c \<notin> set cols then Some KeyError
      else (case re_compile L q of Inl e \<Rightarrow> Some e | Inr m \<Rightarrow> search_err L cols q cs))"

definition matches :: "pylib \<Rightarrow> string \<Rightarrow> cell \<Rightarrow> bool" where
  "matches L q x = (case re_compile L q of Inl e \<Rightarrow> False | Inr m \<Rightarrow> m (lower (str_cell L x)))"

definition search_pred :: "pylib \<Rightarrow> string \<Rightarrow> string list \<Rightarrow> row \<Rightarrow> bool" where
  "search_pred L q cs r = list_ex (\<lambda>c. matches L q (cell_at r c)) cs"

definition flag_sel :: "string \<Rightarrow> string \<Rightarrow> string \<Rightarrow> string \<Rightarrow> row \<Rightarrow> bool" where
  "flag_sel col yes no sel r =
     (if sel = yes then cell_at r col = Str ''Yes''
      else if sel = no then cell_at r col = Str ''No''
      else True)"

definition flag_err :: "string \<Rightarrow> string \<Rightarrow> string \<Rightarrow> string \<Rightarrow> string list \<Rightarrow> bool" where
  "flag_err col yes no sel cols \<longleftrightarrow> (sel = yes \<or> sel = no) \<and> col \<notin> set cols"

definition rick_keep :: "pylib \<Rightarrow> string \<Rightarrow> string list \<Rightarrow> filter_spec \<Rightarrow> row \<Rightarrow> bool" where
  "rick_keep L owner_col search_cols fs r \<longleftrightarrow>
     isin (f_status fs) (cell_at r ''Status'') \<and>
     isin (f_owner fs) (cell_at r owner_col) \<and>
     flag_sel ''Overdue'' ''Only overdue'' ''Not overdue'' (f_overdue fs) r \<and>
     (strip (f_search fs) = [] \<or> search_pred L (lower (strip (f_search fs))) search_cols r)"

definition rick_filter_err ::
  "pylib \<Rightarrow> string \<Rightarrow> string list \<Rightarrow> filter_spec \<Rightarrow> string list \<Rightarrow> exn option" where
  "rick_filter_err L owner_col search_cols fs cols =
     (if ''Status'' \<notin> set cols then Some KeyError
      else if owner_col \<notin> set cols then Some KeyError
      else if flag_err ''Overdue'' ''Only overdue'' ''Not overdue'' (f_overdue fs) cols
      then Some KeyError
      else if strip (f_search fs) \<noteq> []
      then search_err L cols (lower (strip (f_search fs))) search_cols
      else None)"

definition jewelry_keep :: "pylib \<Rightarrow> jfilter_spec \<Rightarrow> row \<Rightarrow> bool" where
  "jewelry_keep L fs r \<longleftrightarrow>
     isin (j_status fs) (cell_at r ''Status'') \<and>
     flag_sel ''Paid'' ''Paid'' ''Unpaid'' (j_paid fs) r \<and>
     (strip (j_search fs) = [] \<or>
      search_pred L (lower (strip (j_search fs))) [''Job_ID'', ''Client'', ''Item''] r)"

definition jewelry_filter_err :: "pylib \<Rightarrow> jfilter_spec \<Rightarrow> string list \<Rightarrow> exn option" where
  "jewelry_filter_err L fs cols =
     (if ''Status'' \<notin> set cols then Some KeyError
      else if flag_err ''Paid'' ''Paid'' ''Unpaid'' (j_paid fs) cols then Some KeyError
      else if strip (j_search fs) \<noteq> []
      then search_err L cols (lower (strip (j_search fs))) [''Job_ID'', ''Client'', ''Item'']
      else None)"

definition CAD_TEAM :: "string list" where
  "CAD_TEAM = [''CAD-1'', ''CAD-2'', ''CAD-3'']"

definition FRONT_DESK :: "string list" where
  "FRONT_DESK = [''Front Desk'']"

definition ALL_ASSIGNEES :: "string list" where
  "ALL_ASSIGNEES = CAD_TEAM @ BENCH_TEAM @ FRONT_DESK"

text \<open>The filter widgets as they start (every status, every owner, \<^verbatim>\<open>All\<close>), with a
  query typed in.\<close>

definition sample_spec :: "string \<Rightarrow> filter_spec" where
  "sample_spec query =
     \<lparr>f_status = CUSTOM_STATUSES, f_owner = ALL_ASSIGNEES, f_overdue = ''All'', f_search = query\<rparr>"

text \<open>Two custom jobs, the status cell of the second left empty in the file.\<close>

definition sample_unstaged :: dataframe where
  "sample_unstaged =
     \<lparr>columns = [''Job_ID'', ''Status''],
      rows = [[(''Job_ID'', Str ''C-1001''), (''Status'', Str ''Completed'')],
              [(''Job_ID'', Str ''C-1002''), (''Status'', NaN)]]\<rparr>"

text \<open>Three repairs of the Rick Terry shop.\<close>

definition sample_repairs :: dataframe where
  "sample_repairs =
     \<lparr>columns = [''Job_ID'', ''Assigned_To'', ''Status''],
      rows = [[(''Job_ID'', Str ''R-RT-2001''), (''Assigned_To'', Str ''Bench-1''), (''Status'', Str ''Intake'')],
              [(''Job_ID'', Str ''R-RT-2002''), (''Assigned_To'', Str ''Bench-1''), (''Status'', Str ''Completed'')],
              [(''Job_ID'', Str ''R-RT-2003''), (''Assigned_To'', Str ''Bench-3''), (''Status'', Str ''In Progress'')]]\<rparr>"












section \<open>Properties\<close>

subsection \<open>Auxiliary facts\<close>

lemma bind_exn_simps [simp]:
  "bind_exn (Inr v) f = f v"
  "bind_exn (Inl e) f = Inl e"
  by (simp_all add: bind_exn_def)

lemma parse_date_Inr:
  "parse_date L s =
     Inr (case s of
            PyStr t \<Rightarrow>
              if strip t \<noteq> [] then (case to_datetime L t of Inl e \<Rightarrow> None | Inr d \<Rightarrow> Some d)
              else None
          | _ \<Rightarrow> None)"
  by (simp add: parse_date_def try_except_def split: pyval.splits sum.splits)

lemma map2_same: "map2 f (map g xs) (map h xs) = map (\<lambda>x. f (g x) (h x)) xs"
  by (induction xs) simp_all

lemma map2_same_left: "map2 f xs (map h xs) = map (\<lambda>x. f x (h x)) xs"
  by (induction xs) simp_all

lemma cell_at_update: "cell_at (AList.update k v r) c = (if c = k then v else cell_at r c)"
  by (simp add: cell_at_def update_conv')

lemma traverse_Inr: "(\<And>x. x \<in> set xs \<Longrightarrow> f x = Inr (g x)) \<Longrightarrow> traverse f xs = Inr (map g xs)"
  by (induction xs) simp_all

lemma is_overdue_cases:
  "is_overdue L due st =
     (if overdue_fails L due st then Inl (projl (nat_lt_date L (today L)))
      else Inr (overdue_text L due st))"
  by (auto simp add: is_overdue_def overdue_text_def overdue_fails_def parse_date_Inr before_today_def
      split: sum.splits tstamp.splits)

lemma traverse_cases:
  "(\<And>x. x \<in> set xs \<Longrightarrow> f x = (if P x then Inl e else Inr (g x))) \<Longrightarrow>
   traverse f xs = (if \<exists>x \<in> set xs. P x then Inl e else Inr (map g xs))"
  by (induction xs) auto

lemma fillna_coerce: "fillna 0 (to_numeric_coerce L c) = Num (coerced L c)"
  by (simp add: fillna_def to_numeric_coerce_def coerced_def split: cell.splits option.splits)

lemma set_column_map:
  "set_column c (map f (rows df)) df =
     df\<lparr>columns := add_col c (columns df), rows := map (\<lambda>r. AList.update c (f r) r) (rows df)\<rparr>"
  by (simp add: set_column_def map2_same_left add_col_def)

lemma coerce_col:
  assumes "c \<in> set (columns df)"
  shows "coerce_get L c df = Inr (df\<lparr>rows := map (\<lambda>r. AList.update c (Num (coerced L (cell_at r c))) r) (rows df)\<rparr>)"
    and "coerce_idx L c df = Inr (df\<lparr>rows := map (\<lambda>r. AList.update c (Num (coerced L (cell_at r c))) r) (rows df)\<rparr>)"
    and "coerce_if_present L c df = df\<lparr>rows := map (\<lambda>r. AList.update c (Num (coerced L (cell_at r c))) r) (rows df)\<rparr>"
  using assms
  by (simp_all add: coerce_get_def coerce_idx_def coerce_if_present_def df_get_def getitem_def
      coerce_series_def fillna_coerce set_column_def map2_same_left o_def)

lemma coerce_missing:
  assumes "c \<notin> set (columns df)"
  shows "coerce_get L c df = Inl AttributeError" "coerce_idx L c df = Inl KeyError" "coerce_if_present L c df = df"
  using assms by (simp_all add: coerce_get_def coerce_idx_def coerce_if_present_def df_get_def getitem_def)

lemma getitem_present: "c \<in> set (columns df) \<Longrightarrow> getitem df c = Inr (map (\<lambda>r. cell_at r c) (rows df))"
  by (simp add: getitem_def)

lemma derive_balance_rows:
  assumes "''Total_Price'' \<in> set (columns df)" "''Deposit_Paid'' \<in> set (columns df)"
  shows "derive_balance df =
    Inr (df\<lparr>columns := add_col ''Paid'' (add_col ''Remaining_Balance'' (columns df)),
             rows := map (\<lambda>r. let rb = clip_lower 0 (sub_cell (cell_at r ''Total_Price'') (cell_at r ''Deposit_Paid''))
                               in AList.update ''Paid'' (paid_flag rb) (AList.update ''Remaining_Balance'' rb r)) (rows df)\<rparr>)"
proof -
  define h where "h = (\<lambda>r. clip_lower 0 (sub_cell (cell_at r ''Total_Price'') (cell_at r ''Deposit_Paid'')))"
  define df1 where "df1 = set_column ''Remaining_Balance'' (map h (rows df)) df"
  have m: "map (clip_lower 0) (map2 sub_cell (map (\<lambda>r. cell_at r ''Total_Price'') (rows df))
              (map (\<lambda>r. cell_at r ''Deposit_Paid'') (rows df))) = map h (rows df)"
    by (simp add: map2_same h_def)
  have df1: "df1 = df\<lparr>columns := add_col ''Remaining_Balance'' (columns df),
                      rows := map (\<lambda>r. AList.update ''Remaining_Balance'' (h r) r) (rows df)\<rparr>"
    unfolding df1_def by (rule set_column_map)
  have in1: "''Remaining_Balance'' \<in> set (columns df1)"
    by (simp add: df1 add_col_def)
  have rb: "map paid_flag (map (\<lambda>r. cell_at r ''Remaining_Balance'') (rows df1))
             = map (\<lambda>r. paid_flag (cell_at r ''Remaining_Balance'')) (rows df1)"
    by simp
  have "derive_balance df = Inr (set_column ''Paid'' (map (\<lambda>r. paid_flag (cell_at r ''Remaining_Balance'')) (rows df1)) df1)"
    unfolding derive_balance_def
    by (simp only: getitem_present[OF assms(1)] getitem_present[OF assms(2)] bind_exn_simps m Let_def
        df1_def[symmetric] getitem_present[OF in1] rb)
  also have "set_column ''Paid'' (map (\<lambda>r. paid_flag (cell_at r ''Remaining_Balance'')) (rows df1)) df1
      = df1\<lparr>columns := add_col ''Paid'' (columns df1),
             rows := map (\<lambda>r. AList.update ''Paid'' (paid_flag (cell_at r ''Remaining_Balance'')) r) (rows df1)\<rparr>"
    by (rule set_column_map)
  also have "\<dots> = df\<lparr>columns := add_col ''Paid'' (add_col ''Remaining_Balance'' (columns df)),
             rows := map (\<lambda>r. let rb = h r
                               in AList.update ''Paid'' (paid_flag rb) (AList.update ''Remaining_Balance'' rb r)) (rows df)\<rparr>"
    by (simp add: df1 cell_at_update o_def Let_def)
  finally show ?thesis by (simp add: h_def)
qed

lemma derive_overdue_cases:
  "derive_overdue L dc df =
    (if \<exists>r \<in> set (rows df). row_fails L dc df r then Inl (projl (nat_lt_date L (today L)))
     else Inr (df\<lparr>columns := add_col ''Overdue'' (columns df),
                  rows := map (overdue_row L dc (columns df)) (rows df)\<rparr>))"
proof -
  have "traverse (\<lambda>r. is_overdue L (str_cell L (row_get df r dc)) (str_cell L (row_get df r ''Status''))) (rows df)
      = (if \<exists>r \<in> set (rows df). row_fails L dc df r then Inl (projl (nat_lt_date L (today L)))
         else Inr (map (\<lambda>r. overdue_text L (str_cell L (row_get df r dc)) (str_cell L (row_get df r ''Status''))) (rows df)))"
    by (rule traverse_cases[where P = "row_fails L dc df"]) (simp add: is_overdue_cases row_fails_def)
  then show ?thesis
    by (simp add: derive_overdue_def set_column_def map2_same_left add_col_def overdue_row_def row_get_def o_def)
qed

lemma clip_sub_Num: "clip_lower 0 (sub_cell (Num t) (Num d)) = Num (if t - d < 0 then 0 else t - d)"
  by (simp add: clip_lower_def sub_cell_def)

lemma coerce2_rows:
  assumes "''Total_Price'' \<in> set (columns df)" "''Deposit_Paid'' \<in> set (columns df)"
  shows "bind_exn (coerce_get L ''Total_Price'' df) (coerce_get L ''Deposit_Paid'') = Inr (coerce_both L df)"
    and "bind_exn (coerce_idx L ''Total_Price'' df) (coerce_idx L ''Deposit_Paid'') = Inr (coerce_both L df)"
    and "coerce_if_present L ''Deposit_Paid'' (coerce_if_present L ''Total_Price'' df) = coerce_both L df"
  using assms by (simp_all add: coerce_col cell_at_update o_def coerce_both_def)

lemma balance_after_coerce:
  assumes "''Total_Price'' \<in> set (columns df)" "''Deposit_Paid'' \<in> set (columns df)"
  shows "derive_balance (coerce_both L df)
     = Inr (df\<lparr>columns := add_col ''Paid'' (add_col ''Remaining_Balance'' (columns df)),
               rows := map (balance_row L) (rows df)\<rparr>)"
  using assms
  by (simp add: coerce_both_def derive_balance_rows cell_at_update o_def clip_sub_Num balance_row_def Let_def)

lemma balance_rick_rows:
  assumes "''Total_Price'' \<in> set (columns df)" "''Deposit_Paid'' \<in> set (columns df)"
  shows "balance_view_rick L df =
     Inr (df\<lparr>columns := add_col ''Paid'' (add_col ''Remaining_Balance'' (columns df)),
              rows := map (balance_row L) (rows df)\<rparr>)"
    and "balance_save_rick L df =
     Inr (df\<lparr>columns := add_col ''Paid'' (add_col ''Remaining_Balance'' (columns df)),
              rows := map (balance_row L) (rows df)\<rparr>)"
proof -
  have "balance_view_rick L df =
      bind_exn (bind_exn (coerce_get L ''Total_Price'' df) (coerce_get L ''Deposit_Paid'')) derive_balance"
    by (simp add: balance_view_rick_def bind_exn_def split: sum.splits)
  then show "balance_view_rick L df =
     Inr (df\<lparr>columns := add_col ''Paid'' (add_col ''Remaining_Balance'' (columns df)),
              rows := map (balance_row L) (rows df)\<rparr>)"
    by (simp add: coerce2_rows(1)[OF assms] balance_after_coerce[OF assms])
  have "balance_save_rick L df =
      bind_exn (bind_exn (coerce_idx L ''Total_Price'' df) (coerce_idx L ''Deposit_Paid'')) derive_balance"
    by (simp add: balance_save_rick_def bind_exn_def split: sum.splits)
  then show "balance_save_rick L df =
     Inr (df\<lparr>columns := add_col ''Paid'' (add_col ''Remaining_Balance'' (columns df)),
              rows := map (balance_row L) (rows df)\<rparr>)"
    by (simp add: coerce2_rows(2)[OF assms] balance_after_coerce[OF assms])
qed

lemma recompute_rick_Inr:
  assumes "''Total_Price'' \<in> set (columns df)" "''Deposit_Paid'' \<in> set (columns df)"
  shows "recompute_view_rick L dc df = Inr dv \<Longrightarrow>
     dv = df\<lparr>columns := add_col ''Overdue'' (add_col ''Paid'' (add_col ''Remaining_Balance'' (columns df))),
              rows := map (rick_row L dc (columns df)) (rows df)\<rparr>"
    and "recompute_save_rick L dc df = Inr ds \<Longrightarrow>
     ds = df\<lparr>columns := add_col ''Overdue'' (add_col ''Paid'' (add_col ''Remaining_Balance'' (columns df))),
              rows := map (rick_row L dc (columns df)) (rows df)\<rparr>"
  by (auto simp add: recompute_view_rick_def recompute_save_rick_def balance_rick_rows[OF assms]
      derive_overdue_cases rick_row_def[abs_def] o_def split: if_splits)

lemma row_fails_balanced:
  assumes "dc = ''Due_Date'' \<or> dc = ''Promised_Date''"
  shows "row_fails L dc (df\<lparr>columns := add_col ''Paid'' (add_col ''Remaining_Balance'' (columns df)), rows := rs\<rparr>)
           (balance_row L r) = row_fails L dc df r"
proof -
  have a: "cell_at (balance_row L r) dc = cell_at r dc"
    using assms by (auto simp add: balance_row_def Let_def cell_at_update)
  have b: "cell_at (balance_row L r) ''Status'' = cell_at r ''Status''"
    by (simp add: balance_row_def Let_def cell_at_update)
  have c: "dc \<in> set (add_col ''Paid'' (add_col ''Remaining_Balance'' (columns df))) \<longleftrightarrow> dc \<in> set (columns df)"
    using assms by (auto simp add: add_col_def)
  have d: "''Status'' \<in> set (add_col ''Paid'' (add_col ''Remaining_Balance'' (columns df))) \<longleftrightarrow> ''Status'' \<in> set (columns df)"
    by (auto simp add: add_col_def)
  show ?thesis
    by (simp add: row_fails_def row_get_def a b c d)
qed

lemma recompute_rick_cases:
  assumes "''Total_Price'' \<in> set (columns df)" "''Deposit_Paid'' \<in> set (columns df)"
    and "dc = ''Due_Date'' \<or> dc = ''Promised_Date''"
  shows "recompute_view_rick L dc df =
     (if \<exists>r \<in> set (rows df). row_fails L dc df r then Inl (projl (nat_lt_date L (today L)))
      else Inr (df\<lparr>columns := add_col ''Overdue'' (add_col ''Paid'' (add_col ''Remaining_Balance'' (columns df))),
                   rows := map (rick_row L dc (columns df)) (rows df)\<rparr>))"
    and "recompute_save_rick L dc df =
     (if \<exists>r \<in> set (rows df). row_fails L dc df r then Inl (projl (nat_lt_date L (today L)))
      else Inr (df\<lparr>columns := add_col ''Overdue'' (add_col ''Paid'' (add_col ''Remaining_Balance'' (columns df))),
                   rows := map (rick_row L dc (columns df)) (rows df)\<rparr>))"
  by (simp_all add: recompute_view_rick_def recompute_save_rick_def balance_rick_rows[OF assms(1,2)]
      derive_overdue_cases row_fails_balanced[OF assms(3)] rick_row_def[abs_def] o_def)

lemma recompute_save_jewelry_rows:
  assumes "''Total_Price'' \<in> set (columns df)" "''Deposit_Paid'' \<in> set (columns df)"
  shows "recompute_save_jewelry L df =
     Inr (df\<lparr>columns := add_col ''Paid'' (add_col ''Remaining_Balance'' (columns df)),
              rows := map (balance_row L) (rows df)\<rparr>)"
proof -
  have "recompute_save_jewelry L df =
      bind_exn (bind_exn (coerce_idx L ''Total_Price'' df) (coerce_idx L ''Deposit_Paid'')) derive_balance"
    by (simp add: recompute_save_jewelry_def bind_exn_def split: sum.splits)
  then show ?thesis
    by (simp add: coerce2_rows(2)[OF assms] balance_after_coerce[OF assms])
qed

lemma update_twice: "AList.update k v (AList.update k w r) = AList.update k v r"
  by (induction r) auto

lemma recompute_view_jewelry_rows:
  assumes "''Total_Price'' \<in> set (columns df)" "''Deposit_Paid'' \<in> set (columns df)"
  shows "recompute_view_jewelry L df =
     Inr (df\<lparr>columns := add_col ''Paid'' (add_col ''Remaining_Balance'' (columns df)),
              rows := map (balance_row L) (rows df)\<rparr>)"
proof (cases "''Remaining_Balance'' \<in> set (columns df)")
  case True
  then have c: "''Remaining_Balance'' \<in> set (columns (coerce_both L df))"
    by (simp add: coerce_both_def)
  have t: "''Total_Price'' \<in> set (columns (coerce_both L df))" "''Deposit_Paid'' \<in> set (columns (coerce_both L df))"
    using assms by (simp_all add: coerce_both_def)
  show ?thesis
    unfolding recompute_view_jewelry_def coerce2_rows(3)[OF assms] coerce_col(3)[OF c]
    using t
    by (simp add: derive_balance_rows)
       (simp add: coerce_both_def cell_at_update o_def clip_sub_Num balance_row_def Let_def update_twice)
next
  case False
  then have c: "''Remaining_Balance'' \<notin> set (columns (coerce_both L df))"
    by (simp add: coerce_both_def)
  show ?thesis
    unfolding recompute_view_jewelry_def coerce2_rows(3)[OF assms] coerce_missing(3)[OF c]
    by (rule balance_after_coerce[OF assms])
qed

subsection \<open>Coercions never raise\<close>




subsection \<open>Remaining balance and paid flag\<close>

lemma balance_ok_balance_row:
  "balance_ok (coerced L (cell_at r ''Total_Price'')) (coerced L (cell_at r ''Deposit_Paid'')) (balance_row L r)"
  by (simp add: balance_ok_def balance_row_def Let_def cell_at_update paid_flag_def max_def)

lemma cell_at_overdue_row: "c \<noteq> ''Overdue'' \<Longrightarrow> cell_at (overdue_row L dc cols r) c = cell_at r c"
  by (simp add: overdue_row_def cell_at_update)

lemma balance_ok_rick_row:
  "balance_ok (coerced L (cell_at r ''Total_Price'')) (coerced L (cell_at r ''Deposit_Paid'')) (rick_row L dc cols r)"
proof -
  have "balance_ok t d (overdue_row L dc cs q) = balance_ok t d q" for t d cs q
    by (simp add: balance_ok_def cell_at_overdue_row)
  then show ?thesis
    by (simp add: rick_row_def balance_ok_balance_row)
qed

lemma compute_remaining_max: "compute_remaining t d = max 0 (t - d)"
  by (simp add: compute_remaining_def Let_def max_def)

lemma coerced_cases:
  "coerced L NaN = 0" "coerced L (Num x) = x"
  "coerced L (Str s) = (case to_numeric_str L s of None \<Rightarrow> 0 | Some v \<Rightarrow> v)"
  by (simp_all add: coerced_def to_numeric_coerce_def split: option.splits)

lemma sample_custom_dated:
  "\<not> (\<exists>r \<in> set (rows sample_custom). row_fails sample_lib ''Due_Date'' sample_custom r)"
  by (simp add: sample_custom_def row_fails_def overdue_fails_def row_get_def cell_at_def str_cell_def
      sample_lib_def)

text \<open>
  C1. Let the frame have the columns \<^verbatim>\<open>Total_Price\<close> and \<^verbatim>\<open>Deposit_Paid\<close>. The statements
  that recompute the numbers (in the views of both scripts, after an insert and after an
  edit) return a frame with as many records, and in each record the two columns hold the
  coerced floats \<open>t\<close> and \<open>d\<close> (0.0 for a missing cell and for a text that is not a
  number), \<^verbatim>\<open>Remaining_Balance\<close> is \<open>max 0 (t - d)\<close>, which is also what \<^verbatim>\<open>compute_remaining\<close>
  returns, and \<^verbatim>\<open>Paid\<close> is \<^verbatim>\<open>Yes\<close> or \<^verbatim>\<open>No\<close>, \<^verbatim>\<open>Yes\<close> exactly when the remaining balance
  equals 0. In \<^verbatim>\<open>app_rick.py\<close> the statement on the overdue flag follows them; whenever it
  returns, the records of the whole pass have these numbers too.
\<close>

theorem recomputed_balance_and_paid:
  assumes "''Total_Price'' \<in> set (columns df)" "''Deposit_Paid'' \<in> set (columns df)"
    and "i < length (rows df)"
  shows "(let t = coerced L (cell_at (rows df ! i) ''Total_Price'');
              d = coerced L (cell_at (rows df ! i) ''Deposit_Paid'')
          in compute_remaining t d = max 0 (t - d) \<and>
             (\<exists>db. balance_view_rick L df = Inr db \<and> length (rows db) = length (rows df) \<and>
                    balance_ok t d (rows db ! i)) \<and>
             (\<exists>db. balance_save_rick L df = Inr db \<and> length (rows db) = length (rows df) \<and>
                    balance_ok t d (rows db ! i)) \<and>
             (\<exists>dj. recompute_view_jewelry L df = Inr dj \<and> length (rows dj) = length (rows df) \<and>
                    balance_ok t d (rows dj ! i)) \<and>
             (\<exists>dj. recompute_save_jewelry L df = Inr dj \<and> length (rows dj) = length (rows df) \<and>
                    balance_ok t d (rows dj ! i)) \<and>
             (\<forall>dr. recompute_view_rick L dc df = Inr dr \<longrightarrow>
                    length (rows dr) = length (rows df) \<and> balance_ok t d (rows dr ! i)) \<and>
             (\<forall>ds. recompute_save_rick L dc df = Inr ds \<longrightarrow>
                    length (rows ds) = length (rows df) \<and> balance_ok t d (rows ds ! i))) \<and>
         coerced L NaN = 0 \<and> coerced L (Num x) = x \<and>
         coerced L (Str s) = (case to_numeric_str L s of None \<Rightarrow> 0 | Some v \<Rightarrow> v)"
proof -
  define t where "t = coerced L (cell_at (rows df ! i) ''Total_Price'')"
  define d where "d = coerced L (cell_at (rows df ! i) ''Deposit_Paid'')"
  have b: "balance_ok t d (map (balance_row L) (rows df) ! i)"
    "balance_ok t d (map (rick_row L dc (columns df)) (rows df) ! i)"
    using assms(3) by (simp_all add: t_def d_def balance_ok_balance_row balance_ok_rick_row)
  have 1: "\<exists>db. balance_view_rick L df = Inr db \<and> length (rows db) = length (rows df) \<and>
                balance_ok t d (rows db ! i)"
    and 2: "\<exists>db. balance_save_rick L df = Inr db \<and> length (rows db) = length (rows df) \<and>
                balance_ok t d (rows db ! i)"
    using b(1) by (simp_all add: balance_rick_rows[OF assms(1,2)])
  have 3: "\<exists>dj. recompute_view_jewelry L df = Inr dj \<and> length (rows dj) = length (rows df) \<and>
                balance_ok t d (rows dj ! i)"
    using b(1) by (simp add: recompute_view_jewelry_rows[OF assms(1,2)])
  have 4: "\<exists>dj. recompute_save_jewelry L df = Inr dj \<and> length (rows dj) = length (rows df) \<and>
                balance_ok t d (rows dj ! i)"
    using b(1) by (simp add: recompute_save_jewelry_rows[OF assms(1,2)])
  have 5: "\<forall>dr. recompute_view_rick L dc df = Inr dr \<longrightarrow>
                length (rows dr) = length (rows df) \<and> balance_ok t d (rows dr ! i)"
    using b(2) recompute_rick_Inr(1)[OF assms(1,2), of L dc] by auto
  have 6: "\<forall>ds. recompute_save_rick L dc df = Inr ds \<longrightarrow>
                length (rows ds) = length (rows df) \<and> balance_ok t d (rows ds ! i)"
    using b(2) recompute_rick_Inr(2)[OF assms(1,2), of L dc] by auto
  have 7: "compute_remaining t d = max 0 (t - d)" by (rule compute_remaining_max)
  from 1 2 3 4 5 6 7 show ?thesis
    unfolding Let_def t_def[symmetric] d_def[symmetric] by (simp add: coerced_cases)
qed

theorem recomputed_balance_and_paid_witness:
  "''Total_Price'' \<in> set (columns sample_custom) \<and> ''Deposit_Paid'' \<in> set (columns sample_custom) \<and>
   (0::nat) < length (rows sample_custom) \<and>
   (\<exists>dr dj. recompute_view_rick sample_lib ''Due_Date'' sample_custom = Inr dr \<and>
        recompute_view_jewelry sample_lib sample_custom = Inr dj \<and>
        balance_ok 100 40 (rows dr ! 0) \<and> balance_ok 100 40 (rows dj ! 0) \<and>
        cell_at (rows dr ! 0) ''Remaining_Balance'' = Num 60 \<and> cell_at (rows dr ! 0) ''Paid'' = Str ''No'')"
proof -
  have c: "''Total_Price'' \<in> set (columns sample_custom)" "''Deposit_Paid'' \<in> set (columns sample_custom)"
    "(0::nat) < length (rows sample_custom)"
    by (simp_all add: sample_custom_def)
  have t: "coerced sample_lib (cell_at (rows sample_custom ! 0) ''Total_Price'') = 100"
          "coerced sample_lib (cell_at (rows sample_custom ! 0) ''Deposit_Paid'') = 40"
    by (simp_all add: sample_custom_def sample_lib_def coerced_def to_numeric_coerce_def cell_at_def)
  obtain dr where dr: "recompute_view_rick sample_lib ''Due_Date'' sample_custom = Inr dr"
    using recompute_rick_cases(1)[OF c(1,2), of "''Due_Date''" sample_lib] sample_custom_dated by simp
  note th = recomputed_balance_and_paid[OF c, where L = sample_lib and dc = "''Due_Date''" and x = 0 and s = "[]"]
  from th dr have h3: "balance_ok 100 40 (rows dr ! 0)"
    by (simp add: t Let_def)
  from th obtain dj where h: "recompute_view_jewelry sample_lib sample_custom = Inr dj"
     "balance_ok 100 40 (rows dj ! 0)"
    by (auto simp add: t Let_def)
  from h3 have "cell_at (rows dr ! 0) ''Remaining_Balance'' = Num 60" "cell_at (rows dr ! 0) ''Paid'' = Str ''No''"
    by (auto simp add: balance_ok_def)
  with c dr h h3 show ?thesis by blast
qed

subsection \<open>The overdue flag\<close>

lemma is_overdue_blank: "strip due = [] \<Longrightarrow> overdue_text L due st = ''No''"
  by (simp add: overdue_text_def)


lemma is_overdue_dated:
  "is_overdue L due ''Completed'' = Inr ''No''"
  "strip due = [] \<Longrightarrow> is_overdue L due st = Inr ''No''"
  "to_datetime L due = Inl e \<Longrightarrow> is_overdue L due st = Inr ''No''"
  "st \<noteq> ''Completed'' \<Longrightarrow> strip due \<noteq> [] \<Longrightarrow> to_datetime L due = Inr (Date x) \<Longrightarrow>
     is_overdue L due st = Inr (if date_lt x (today L) then ''Yes'' else ''No'')"
  "st \<noteq> ''Completed'' \<Longrightarrow> strip due \<noteq> [] \<Longrightarrow> to_datetime L due = Inr NaT \<Longrightarrow>
     is_overdue L due st =
       (case nat_lt_date L (today L) of Inl e \<Rightarrow> Inl e | Inr b \<Rightarrow> Inr (if b then ''Yes'' else ''No''))"
  by (simp_all add: is_overdue_def parse_date_Inr before_today_def split: sum.splits)

text \<open>
  C2 at a record whose date cell is empty in the file and whose status is open. The cell
  is read as NaN, \<^verbatim>\<open>str\<close> makes the text \<^verbatim>\<open>nan\<close> of it, the conversion of that text is \<^verbatim>\<open>NaT\<close>,
  and \<^verbatim>\<open>is_overdue\<close> compares \<^verbatim>\<open>NaT\<close> with today's date outside every \<^verbatim>\<open>try\<close>: with pandas
  from 2.0 on the comparison raises, and so does the recomputation of the view.
\<close>

theorem overdue_flag_missing_date:
  "str_cell sample_lib (row_get sample_undated (hd (rows sample_undated)) ''Due_Date'') = ''nan'' \<and>
   str_cell sample_lib (row_get sample_undated (hd (rows sample_undated)) ''Status'') = ''CAD Modeling'' \<and>
   is_overdue sample_lib ''nan'' ''CAD Modeling'' = Inl TypeError \<and>
   recompute_view_rick sample_lib ''Due_Date'' sample_undated = Inl TypeError \<and>
   recompute_save_rick sample_lib ''Due_Date'' sample_undated = Inl TypeError"
proof -
  have c: "''Total_Price'' \<in> set (columns sample_undated)" "''Deposit_Paid'' \<in> set (columns sample_undated)"
    by (simp_all add: sample_undated_def)
  have dc: "''Due_Date'' = ''Due_Date'' \<or> ''Due_Date'' = ''Promised_Date''" by simp
  have r: "str_cell sample_lib (row_get sample_undated (hd (rows sample_undated)) ''Due_Date'') = ''nan''"
    "str_cell sample_lib (row_get sample_undated (hd (rows sample_undated)) ''Status'') = ''CAD Modeling''"
    by (simp_all add: sample_undated_def row_get_def cell_at_def str_cell_def)
  have sp: "strip ''nan'' \<noteq> []" by (simp add: strip_def is_space_def)
  have f: "overdue_fails sample_lib ''nan'' ''CAD Modeling''"
    using sp by (simp add: overdue_fails_def sample_lib_def)
  have e: "projl (nat_lt_date sample_lib (today sample_lib)) = TypeError"
    by (simp add: sample_lib_def)
  have i: "is_overdue sample_lib ''nan'' ''CAD Modeling'' = Inl TypeError"
    by (simp add: is_overdue_cases f e)
  have "rows sample_undated = [hd (rows sample_undated)]" by (simp add: sample_undated_def)
  then have "\<exists>r \<in> set (rows sample_undated). row_fails sample_lib ''Due_Date'' sample_undated r"
    using f r by (metis list.set_intros(1) row_fails_def)
  then have "recompute_view_rick sample_lib ''Due_Date'' sample_undated = Inl TypeError"
    "recompute_save_rick sample_lib ''Due_Date'' sample_undated = Inl TypeError"
    by (simp_all add: recompute_rick_cases[OF c dc] e)
  with r i show ?thesis by simp
qed

subsection \<open>The frame of the recomputation\<close>

lemma add_col_append: "add_col c cs = cs @ (if c \<in> set cs then [] else [c])"
  by (simp add: add_col_def)

lemma map_of_balance_row:
  "c \<notin> {''Total_Price'', ''Deposit_Paid'', ''Remaining_Balance'', ''Paid''} \<Longrightarrow>
   map_of (balance_row L r) c = map_of r c"
  by (simp add: balance_row_def Let_def update_conv')

lemma map_of_rick_row:
  "c \<notin> {''Total_Price'', ''Deposit_Paid'', ''Remaining_Balance'', ''Paid'', ''Overdue''} \<Longrightarrow>
   map_of (rick_row L dc cols r) c = map_of r c"
  by (simp add: rick_row_def overdue_row_def update_conv' map_of_balance_row)

lemma frame_kept_balance:
  "frame_kept df (df\<lparr>columns := add_col ''Paid'' (add_col ''Remaining_Balance'' (columns df)),
                     rows := map (balance_row L) (rows df)\<rparr>)"
  by (auto simp add: frame_kept_def add_col_append map_of_balance_row)

lemma frame_kept_rick:
  "frame_kept df (df\<lparr>columns := add_col ''Overdue'' (add_col ''Paid'' (add_col ''Remaining_Balance'' (columns df))),
                     rows := map (rick_row L dc (columns df)) (rows df)\<rparr>)"
  by (auto simp add: frame_kept_def add_col_append map_of_rick_row)

text \<open>
  C9. On a frame with the two numeric columns, whenever a recomputation returns (the ones
  of the views of both scripts and the ones after an insert or an edit), it returns a
  frame with the same number of records in the same order, in which every cell of every
  other column than \<^verbatim>\<open>Total_Price\<close>, \<^verbatim>\<open>Deposit_Paid\<close>, \<^verbatim>\<open>Remaining_Balance\<close>, \<^verbatim>\<open>Paid\<close> and
  \<^verbatim>\<open>Overdue\<close> is as it was; the columns are those of the input, followed by the derived
  columns it lacked. The recomputations of \<^verbatim>\<open>jewelryapp.py\<close> always return, and those of
  \<^verbatim>\<open>app_rick.py\<close> return when \<^verbatim>\<open>is_overdue\<close> raises on no record.
\<close>

theorem recomputation_keeps_frame:
  assumes "''Total_Price'' \<in> set (columns df)" "''Deposit_Paid'' \<in> set (columns df)"
  shows "(\<forall>dv. recompute_view_rick L dc df = Inr dv \<longrightarrow> frame_kept df dv) \<and>
         (\<forall>ds. recompute_save_rick L dc df = Inr ds \<longrightarrow> frame_kept df ds) \<and>
         (\<exists>dj. recompute_view_jewelry L df = Inr dj \<and> frame_kept df dj) \<and>
         (\<exists>dj. recompute_save_jewelry L df = Inr dj \<and> frame_kept df dj) \<and>
         ((dc = ''Due_Date'' \<or> dc = ''Promised_Date'') \<and> (\<forall>r \<in> set (rows df). \<not> row_fails L dc df r)
            \<longrightarrow> (\<exists>dv ds. recompute_view_rick L dc df = Inr dv \<and> recompute_save_rick L dc df = Inr ds))"
proof -
  have 1: "\<forall>dv. recompute_view_rick L dc df = Inr dv \<longrightarrow> frame_kept df dv"
    using recompute_rick_Inr(1)[OF assms, of L dc] frame_kept_rick[of df L dc] by auto
  have 2: "\<forall>ds. recompute_save_rick L dc df = Inr ds \<longrightarrow> frame_kept df ds"
    using recompute_rick_Inr(2)[OF assms, of L dc] frame_kept_rick[of df L dc] by auto
  have 3: "\<exists>dj. recompute_view_jewelry L df = Inr dj \<and> frame_kept df dj"
    by (simp add: recompute_view_jewelry_rows[OF assms] frame_kept_balance)
  have 4: "\<exists>dj. recompute_save_jewelry L df = Inr dj \<and> frame_kept df dj"
    by (simp add: recompute_save_jewelry_rows[OF assms] frame_kept_balance)
  have 5: "(dc = ''Due_Date'' \<or> dc = ''Promised_Date'') \<and> (\<forall>r \<in> set (rows df). \<not> row_fails L dc df r)
            \<longrightarrow> (\<exists>dv ds. recompute_view_rick L dc df = Inr dv \<and> recompute_save_rick L dc df = Inr ds)"
    using recompute_rick_cases[OF assms, of dc L] by auto
  from 1 2 3 4 5 show ?thesis by blast
qed

theorem recomputation_keeps_frame_witness:
  "''Total_Price'' \<in> set (columns sample_custom) \<and> ''Deposit_Paid'' \<in> set (columns sample_custom) \<and>
   \<not> (\<exists>r \<in> set (rows sample_custom). row_fails sample_lib ''Due_Date'' sample_custom r) \<and>
   (\<exists>dv. recompute_view_rick sample_lib ''Due_Date'' sample_custom = Inr dv \<and>
      frame_kept sample_custom dv \<and> length (rows dv) = 2 \<and>
      map_of (rows dv ! 0) ''Client'' = Some (Str ''Ann Lee'') \<and>
      map_of (rows dv ! 1) ''Client'' = Some (Str ''Bo Diaz'') \<and>
      map_of (rows dv ! 1) ''Status'' = Some (Str ''Completed''))"
proof -
  have c: "''Total_Price'' \<in> set (columns sample_custom)" "''Deposit_Paid'' \<in> set (columns sample_custom)"
    by (simp_all add: sample_custom_def)
  have n: "\<forall>r \<in> set (rows sample_custom). \<not> row_fails sample_lib ''Due_Date'' sample_custom r"
    using sample_custom_dated by blast
  note th = recomputation_keeps_frame[OF c, of sample_lib "''Due_Date''"]
  from th n obtain dv where dv1: "recompute_view_rick sample_lib ''Due_Date'' sample_custom = Inr dv"
    by auto
  with th have dv2: "frame_kept sample_custom dv" by blast
  have l: "length (rows sample_custom) = 2" by (simp add: sample_custom_def)
  from dv2 have k: "length (rows dv) = 2"
    "map_of (rows dv ! 0) ''Client'' = map_of (rows sample_custom ! 0) ''Client''"
    "map_of (rows dv ! 1) ''Client'' = map_of (rows sample_custom ! 1) ''Client''"
    "map_of (rows dv ! 1) ''Status'' = map_of (rows sample_custom ! 1) ''Status''"
    by (simp_all add: frame_kept_def l)
  have "map_of (rows sample_custom ! 0) ''Client'' = Some (Str ''Ann Lee'')"
    "map_of (rows sample_custom ! 1) ''Client'' = Some (Str ''Bo Diaz'')"
    "map_of (rows sample_custom ! 1) ''Status'' = Some (Str ''Completed'')"
    by (simp_all add: sample_custom_def)
  with c n dv1 dv2 k show ?thesis by auto
qed

subsection \<open>The filters\<close>

lemma loc_mask_map: "loc_mask (map p (rows df)) df = df\<lparr>rows := filter p (rows df)\<rparr>"
proof -
  have "map fst (filter snd (zip xs (map p xs))) = filter p xs" for xs :: "row list"
    by (induction xs) simp_all
  then show ?thesis by (simp add: loc_mask_def)
qed

lemma loc_mask_rows: "loc_mask (map p xs) (df\<lparr>rows := xs\<rparr>) = df\<lparr>rows := filter p xs\<rparr>"
  using loc_mask_map[of p "df\<lparr>rows := xs\<rparr>"] by simp

lemma select_by_column:
  "loc_mask (map p (map (\<lambda>r. cell_at r c) (rows df))) df = df\<lparr>rows := filter (\<lambda>r. p (cell_at r c)) (rows df)\<rparr>"
  using loc_mask_map[of "\<lambda>r. p (cell_at r c)" df] by (simp add: o_def)

lemma search_mask_eq:
  "search_mask L df q cs =
     (case search_err L (columns df) q cs of
        Some e \<Rightarrow> Inl e
      | None \<Rightarrow> Inr (map (search_pred L q cs) (rows df)))"
proof (induction cs)
  case Nil
  show ?case by (simp add: search_pred_def[abs_def] map_replicate_const)
next
  case (Cons c cs)
  show ?case
  proof (cases "c \<in> set (columns df)")
    case False
    then show ?thesis by (simp add: contains_mask_def getitem_def)
  next
    case True
    show ?thesis
    proof (cases "re_compile L q")
      case (Inl e)
      then show ?thesis using True by (simp add: contains_mask_def getitem_def)
    next
      case (Inr m)
      then show ?thesis using True Cons
        by (simp add: contains_mask_def getitem_def search_pred_def matches_def map2_same
            split: option.splits)
    qed
  qed
qed

lemma apply_search_eq:
  "apply_search L cs s df =
     (if strip s = [] then Inr df
      else (case search_err L (columns df) (lower (strip s)) cs of
              Some e \<Rightarrow> Inl e
            | None \<Rightarrow> Inr (df\<lparr>rows := filter (search_pred L (lower (strip s)) cs) (rows df)\<rparr>)))"
  by (simp add: apply_search_def Let_def search_mask_eq loc_mask_map split: option.splits)

lemma select_eq_eq:
  "select_eq c v df =
     (if c \<in> set (columns df) then Inr (df\<lparr>rows := filter (\<lambda>r. cell_at r c = Str v) (rows df)\<rparr>)
      else Inl KeyError)"
  using select_by_column[of "eq_str v" c df]
  by (simp add: select_eq_def getitem_def eq_str_def[abs_def])

lemma flag_step:
  "(if sel = yes then select_eq col ''Yes'' df
    else if sel = no then select_eq col ''No'' df
    else Inr df) =
   (if flag_err col yes no sel (columns df) then Inl KeyError
    else Inr (df\<lparr>rows := filter (flag_sel col yes no sel) (rows df)\<rparr>))"
  by (auto simp add: select_eq_eq flag_err_def flag_sel_def[abs_def])

lemma search_step:
  "apply_search L cs s (df\<lparr>rows := xs\<rparr>) =
     (if strip s = [] then Inr (df\<lparr>rows := filter (\<lambda>r. strip s = [] \<or> search_pred L (lower (strip s)) cs r) xs\<rparr>)
      else (case search_err L (columns df) (lower (strip s)) cs of
              Some e \<Rightarrow> Inl e
            | None \<Rightarrow> Inr (df\<lparr>rows := filter (\<lambda>r. strip s = [] \<or> search_pred L (lower (strip s)) cs r) xs\<rparr>)))"
  by (simp add: apply_search_eq split: option.splits)

lemma rick_filter_eq:
  "rick_filter L oc sc fs df =
     (case rick_filter_err L oc sc fs (columns df) of
        Some e \<Rightarrow> Inl e
      | None \<Rightarrow> Inr (df\<lparr>rows := filter (rick_keep L oc sc fs) (rows df)\<rparr>))"
proof (cases "''Status'' \<in> set (columns df) \<and> oc \<in> set (columns df)")
  case False
  then show ?thesis
    by (auto simp add: rick_filter_def rick_filter_err_def getitem_def Let_def loc_mask_def)
next
  case True
  define P1 where "P1 = (\<lambda>r. isin (f_status fs) (cell_at r ''Status''))"
  define P2 where "P2 = (\<lambda>r. isin (f_owner fs) (cell_at r oc))"
  define P3 where "P3 = flag_sel ''Overdue'' ''Only overdue'' ''Not overdue'' (f_overdue fs)"
  define P4 where "P4 = (\<lambda>r. strip (f_search fs) = [] \<or> search_pred L (lower (strip (f_search fs))) sc r)"
  define df1 where "df1 = df\<lparr>rows := filter P1 (rows df)\<rparr>"
  define df2 where "df2 = df\<lparr>rows := filter P2 (filter P1 (rows df))\<rparr>"
  define df3 where "df3 = df\<lparr>rows := filter P3 (filter P2 (filter P1 (rows df)))\<rparr>"
  have c: "columns df1 = columns df" "columns df2 = columns df" "columns df3 = columns df"
    by (simp_all add: df1_def df2_def df3_def)
  have s1: "loc_mask (map (isin (f_status fs)) (map (\<lambda>r. cell_at r ''Status'') (rows df))) df = df1"
    unfolding df1_def P1_def by (rule select_by_column)
  have s2: "loc_mask (map (isin (f_owner fs)) (map (\<lambda>r. cell_at r oc) (rows df1))) df1 = df2"
    using select_by_column[of "isin (f_owner fs)" oc df1] by (simp add: df1_def df2_def P2_def)
  have s3: "(if f_overdue fs = ''Only overdue'' then select_eq ''Overdue'' ''Yes'' df2
             else if f_overdue fs = ''Not overdue'' then select_eq ''Overdue'' ''No'' df2
             else Inr df2) =
            (if flag_err ''Overdue'' ''Only overdue'' ''Not overdue'' (f_overdue fs) (columns df)
             then Inl KeyError else Inr df3)"
    unfolding flag_step by (simp add: df2_def df3_def P3_def)
  have s4: "apply_search L sc (f_search fs) df3 =
     (if strip (f_search fs) = [] then Inr (df\<lparr>rows := filter P4 (filter P3 (filter P2 (filter P1 (rows df))))\<rparr>)
      else (case search_err L (columns df) (lower (strip (f_search fs))) sc of
              Some e \<Rightarrow> Inl e
            | None \<Rightarrow> Inr (df\<lparr>rows := filter P4 (filter P3 (filter P2 (filter P1 (rows df))))\<rparr>)))"
    unfolding df3_def search_step P4_def by simp
  have k: "filter P4 (filter P3 (filter P2 (filter P1 (rows df)))) = filter (rick_keep L oc sc fs) (rows df)"
    by (simp add: rick_keep_def[abs_def] P1_def P2_def P3_def P4_def conj_commute conj_left_commute)
  have g: "getitem df ''Status'' = Inr (map (\<lambda>r. cell_at r ''Status'') (rows df))"
    "getitem df1 oc = Inr (map (\<lambda>r. cell_at r oc) (rows df1))"
    using True c by (simp_all add: getitem_def)
  have "rick_filter L oc sc fs df =
     bind_exn (if flag_err ''Overdue'' ''Only overdue'' ''Not overdue'' (f_overdue fs) (columns df)
               then Inl KeyError else Inr df3) (apply_search L sc (f_search fs))"
    unfolding rick_filter_def g bind_exn_simps Let_def s1 s2 s3 ..
  also have "\<dots> = (case rick_filter_err L oc sc fs (columns df) of
        Some e \<Rightarrow> Inl e
      | None \<Rightarrow> Inr (df\<lparr>rows := filter (rick_keep L oc sc fs) (rows df)\<rparr>))"
    using True by (simp add: s4[unfolded k] rick_filter_err_def split: option.splits)
  finally show ?thesis .
qed

lemma jewelry_filter_eq:
  "custom_filter_jewelry L fs df =
     (case jewelry_filter_err L fs (columns df) of
        Some e \<Rightarrow> Inl e
      | None \<Rightarrow> Inr (df\<lparr>rows := filter (jewelry_keep L fs) (rows df)\<rparr>))"
proof (cases "''Status'' \<in> set (columns df)")
  case False
  then show ?thesis
    by (simp add: custom_filter_jewelry_def jewelry_filter_err_def getitem_def)
next
  case True
  define P1 where "P1 = (\<lambda>r. isin (j_status fs) (cell_at r ''Status''))"
  define P3 where "P3 = flag_sel ''Paid'' ''Paid'' ''Unpaid'' (j_paid fs)"
  define P4 where "P4 = (\<lambda>r. strip (j_search fs) = [] \<or>
      search_pred L (lower (strip (j_search fs))) [''Job_ID'', ''Client'', ''Item''] r)"
  define df1 where "df1 = df\<lparr>rows := filter P1 (rows df)\<rparr>"
  define df3 where "df3 = df\<lparr>rows := filter P3 (filter P1 (rows df))\<rparr>"
  have s1: "loc_mask (map (isin (j_status fs)) (map (\<lambda>r. cell_at r ''Status'') (rows df))) df = df1"
    unfolding df1_def P1_def by (rule select_by_column)
  have s3: "(if j_paid fs = ''Paid'' then select_eq ''Paid'' ''Yes'' df1
             else if j_paid fs = ''Unpaid'' then select_eq ''Paid'' ''No'' df1
             else Inr df1) =
            (if flag_err ''Paid'' ''Paid'' ''Unpaid'' (j_paid fs) (columns df)
             then Inl KeyError else Inr df3)"
    unfolding flag_step by (simp add: df1_def df3_def P3_def)
  have s4: "apply_search L [''Job_ID'', ''Client'', ''Item''] (j_search fs) df3 =
     (if strip (j_search fs) = [] then Inr (df\<lparr>rows := filter P4 (filter P3 (filter P1 (rows df)))\<rparr>)
      else (case search_err L (columns df) (lower (strip (j_search fs))) [''Job_ID'', ''Client'', ''Item''] of
              Some e \<Rightarrow> Inl e
            | None \<Rightarrow> Inr (df\<lparr>rows := filter P4 (filter P3 (filter P1 (rows df)))\<rparr>)))"
    unfolding df3_def search_step P4_def by simp
  have k: "filter P4 (filter P3 (filter P1 (rows df))) = filter (jewelry_keep L fs) (rows df)"
    by (simp add: jewelry_keep_def[abs_def] P1_def P3_def P4_def conj_commute conj_left_commute)
  have g: "getitem df ''Status'' = Inr (map (\<lambda>r. cell_at r ''Status'') (rows df))"
    using True by (simp add: getitem_def)
  have "custom_filter_jewelry L fs df =
     bind_exn (if flag_err ''Paid'' ''Paid'' ''Unpaid'' (j_paid fs) (columns df)
               then Inl KeyError else Inr df3) (apply_search L [''Job_ID'', ''Client'', ''Item''] (j_search fs))"
    unfolding custom_filter_jewelry_def g bind_exn_simps Let_def s1 s3 ..
  also have "\<dots> = (case jewelry_filter_err L fs (columns df) of
        Some e \<Rightarrow> Inl e
      | None \<Rightarrow> Inr (df\<lparr>rows := filter (jewelry_keep L fs) (rows df)\<rparr>))"
    using True by (simp add: s4[unfolded k] jewelry_filter_err_def del: search_err.simps split: option.splits)
  finally show ?thesis .
qed

lemma rick_filter_idem:
  assumes "rick_filter L oc sc fs df = Inr out"
  shows "rick_filter L oc sc fs out = Inr out"
proof -
  from assms have e: "rick_filter_err L oc sc fs (columns df) = None"
    and o: "out = df\<lparr>rows := filter (rick_keep L oc sc fs) (rows df)\<rparr>"
    by (auto simp add: rick_filter_eq split: option.splits)
  from o have "columns out = columns df" by simp
  with e o show ?thesis by (simp add: rick_filter_eq)
qed

text \<open>
  C8. Whenever a filter of either script returns a frame, the same filter with the same
  specification returns that very frame on it.
\<close>

theorem filter_idempotent:
  "(custom_filter_rick L fs df = Inr out \<longrightarrow> custom_filter_rick L fs out = Inr out) \<and>
   (repair_filter_rick L fs df' = Inr out' \<longrightarrow> repair_filter_rick L fs out' = Inr out') \<and>
   (custom_filter_jewelry L js dj = Inr outj \<longrightarrow> custom_filter_jewelry L js outj = Inr outj)"
proof -
  have "custom_filter_jewelry L js outj = Inr outj" if a: "custom_filter_jewelry L js dj = Inr outj"
  proof -
    from a have e: "jewelry_filter_err L js (columns dj) = None"
      and o: "outj = dj\<lparr>rows := filter (jewelry_keep L js) (rows dj)\<rparr>"
      by (auto simp add: jewelry_filter_eq split: option.splits)
    from o have "columns outj = columns dj" by simp
    with e o show ?thesis by (simp add: jewelry_filter_eq)
  qed
  then show ?thesis
    by (auto simp add: custom_filter_rick_def repair_filter_rick_def intro: rick_filter_idem)
qed

lemma literal_query_is_substring:
  "re_compile L q = Inr (contains q) \<Longrightarrow>
   search_pred L q cs r = list_ex (\<lambda>c. contains q (lower (str_cell L (cell_at r c)))) cs"
  by (simp add: search_pred_def matches_def)

lemma sample_texts:
  "strip '' Ring '' = ''Ring''" "lower ''Ring'' = ''ring''"
  "lower ''C-RT-1001'' = ''c-rt-1001''" "lower ''Ann Lee'' = ''ann lee''"
  "lower ''Engagement ring'' = ''engagement ring''"
  "lower ''C-RT-1002'' = ''c-rt-1002''" "lower ''Bo Diaz'' = ''bo diaz''"
  "lower ''Pendant'' = ''pendant''"
  "strip ''('' = ''(''" "lower ''('' = ''(''"
  by code_simp+

lemma sample_contains:
  "contains ''ring'' ''engagement ring''" "\<not> contains ''ring'' ''c-rt-1001''" "\<not> contains ''ring'' ''ann lee''"
  "\<not> contains ''ring'' ''c-rt-1002''" "\<not> contains ''ring'' ''bo diaz''" "\<not> contains ''ring'' ''pendant''"
  by simp_all

lemma sample_filter_ring:
  "custom_filter_rick sample_lib (sample_spec '' Ring '') sample_custom =
     Inr (sample_custom\<lparr>rows := [rows sample_custom ! 0]\<rparr>)"
  by (simp add: custom_filter_rick_def rick_filter_eq rick_filter_err_def flag_err_def sample_spec_def
      sample_texts sample_custom_def sample_lib_def rick_keep_def flag_sel_def search_pred_def
      matches_def cell_at_def str_cell_def isin_def sample_contains
      CUSTOM_STATUSES_def ALL_ASSIGNEES_def CAD_TEAM_def BENCH_TEAM_def FRONT_DESK_def)

text \<open>The witness of C8: the query \<^verbatim>\<open>Ring\<close> between blanks keeps the first sample job, and
  filtering that result again returns it.\<close>

theorem filter_idempotent_witness:
  "custom_filter_rick sample_lib (sample_spec '' Ring '') sample_custom =
     Inr (sample_custom\<lparr>rows := [rows sample_custom ! 0]\<rparr>) \<and>
   custom_filter_rick sample_lib (sample_spec '' Ring '') (sample_custom\<lparr>rows := [rows sample_custom ! 0]\<rparr>) =
     Inr (sample_custom\<lparr>rows := [rows sample_custom ! 0]\<rparr>)"
  using filter_idempotent[of sample_lib "sample_spec '' Ring ''" sample_custom
      "sample_custom\<lparr>rows := [rows sample_custom ! 0]\<rparr>"] sample_filter_ring
  by blast

text \<open>
  C6. The filter of \<^verbatim>\<open>app_rick.py\<close> keeps, in their order, the records whose status and
  owner are among the allowed ones, whose overdue flag fits the selector and which the
  trimmed, lower-cased query matches in one of the searched columns (\<open>rick_filter_eq\<close>),
  and for a pattern that searches for itself the match is the substring test
  (\<open>literal_query_is_substring\<close>). But the query is compiled as a regular expression: with
  the query \<^verbatim>\<open>(\<close> the filter of the sample frame raises the error of \<^verbatim>\<open>re.compile\<close> instead
  of returning the records that contain it, also when no status is allowed.
\<close>

theorem search_query_unbalanced_paren:
  "custom_filter_rick sample_lib (sample_spec ''('') sample_custom = Inl ReError \<and>
   custom_filter_rick sample_lib ((sample_spec ''('')\<lparr>f_status := []\<rparr>) sample_custom = Inl ReError"
  by (simp add: custom_filter_rick_def rick_filter_eq rick_filter_err_def flag_err_def sample_spec_def
      sample_texts sample_custom_def sample_lib_def)

subsection \<open>Histograms\<close>

lemma map_of_tabulate: "map_of (map (\<lambda>v. (v, f v)) xs) k = (if k \<in> set xs then Some (f k) else None)"
  by (induction xs) auto

lemma reindex_value_counts:
  "reindex keys 0 (value_counts col) = map (\<lambda>k. (k, count_list col (Str k))) keys"
  by (simp add: reindex_def value_counts_def map_of_tabulate)

lemma count_list_column:
  "count_list (map (\<lambda>r. cell_at r c) rs) v = length (filter (\<lambda>r. cell_at r c = v) rs)"
  by (induction rs) auto

lemma stage_counts_eq:
  "''Status'' \<in> set (columns df) \<Longrightarrow>
   stage_counts stages df =
     Inr (map (\<lambda>s. (s, length (filter (\<lambda>r. cell_at r ''Status'' = Str s) (rows df)))) stages)"
  by (simp add: stage_counts_def getitem_def reindex_value_counts count_list_column)

lemma sum_indicator:
  "distinct ks \<Longrightarrow> (\<Sum>k\<leftarrow>ks. if x = Str k then 1 else 0) = (if isin ks x then (1::nat) else 0)"
  by (induction ks) (auto simp add: isin_def split: cell.splits)

lemma sum_stage_counts:
  "distinct ks \<Longrightarrow>
   (\<Sum>k\<leftarrow>ks. length (filter (\<lambda>r. cell_at r c = Str k) rs)) = length (filter (\<lambda>r. isin ks (cell_at r c)) rs)"
proof (induction rs)
  case Nil
  then show ?case by simp
next
  case (Cons r rs)
  have "(\<Sum>k\<leftarrow>ks. length (filter (\<lambda>r. cell_at r c = Str k) (r # rs)))
      = (\<Sum>k\<leftarrow>ks. (if cell_at r c = Str k then 1 else 0) + length (filter (\<lambda>r. cell_at r c = Str k) rs))"
    by (rule arg_cong[where f = sum_list]) simp
  also have "\<dots> = (\<Sum>k\<leftarrow>ks. if cell_at r c = Str k then 1 else 0)
                   + (\<Sum>k\<leftarrow>ks. length (filter (\<lambda>r. cell_at r c = Str k) rs))"
    by (simp add: sum_list_addf)
  finally show ?case using Cons by (simp add: sum_indicator)
qed

lemma distinct_stages: "distinct CUSTOM_STATUSES" "distinct REPAIR_STATUSES" "distinct BENCH_TEAM"
  by (simp_all add: CUSTOM_STATUSES_def REPAIR_STATUSES_def BENCH_TEAM_def)

text \<open>
  C4, as the code has it. On a frame with the column \<^verbatim>\<open>Status\<close> the histogram lists the
  stages of the category in pipeline order, each with the number of records in that
  stage (0 for a stage without records). Its counts add up to the number of records
  whose status is one of the stages: to the size of the collection when every record has
  such a status, and to less otherwise.
\<close>

theorem stage_histogram:
  assumes "''Status'' \<in> set (columns df)"
    and "stages = CUSTOM_STATUSES \<or> stages = REPAIR_STATUSES"
  shows "\<exists>h. stage_counts stages df = Inr h \<and>
           h = map (\<lambda>s. (s, length (filter (\<lambda>r. cell_at r ''Status'' = Str s) (rows df)))) stages \<and>
           map fst h = stages \<and>
           sum_list (map snd h) = length (filter (\<lambda>r. isin stages (cell_at r ''Status'')) (rows df)) \<and>
           ((\<forall>r \<in> set (rows df). isin stages (cell_at r ''Status''))
              \<longrightarrow> sum_list (map snd h) = length (rows df))"
proof -
  have d: "distinct stages" using assms(2) distinct_stages by auto
  show ?thesis
    by (simp add: stage_counts_eq[OF assms(1)] o_def sum_stage_counts[OF d])
qed

theorem stage_histogram_witness:
  "''Status'' \<in> set (columns sample_custom) \<and>
   stage_counts CUSTOM_STATUSES sample_custom =
     Inr [(''Consultation'', 0), (''Design Sketch'', 0), (''CAD Modeling'', 1), (''3D Approval'', 0),
          (''Casting'', 0), (''Stone Setting'', 0), (''Final Polish'', 0), (''Ready for Pickup'', 0),
          (''Completed'', 1)] \<and>
   length (rows sample_custom) = 2"
proof -
  have c: "''Status'' \<in> set (columns sample_custom)" by (simp add: sample_custom_def)
  from stage_histogram[OF c, of CUSTOM_STATUSES] obtain h where
    h: "stage_counts CUSTOM_STATUSES sample_custom = Inr h"
       "h = map (\<lambda>s. (s, length (filter (\<lambda>r. cell_at r ''Status'' = Str s) (rows sample_custom)))) CUSTOM_STATUSES"
    by auto
  have "h = [(''Consultation'', 0), (''Design Sketch'', 0), (''CAD Modeling'', 1), (''3D Approval'', 0),
          (''Casting'', 0), (''Stone Setting'', 0), (''Final Polish'', 0), (''Ready for Pickup'', 0),
          (''Completed'', 1)]"
    unfolding h(2) by (simp add: CUSTOM_STATUSES_def sample_custom_def cell_at_def)
  with h(1) c show ?thesis by (simp add: sample_custom_def)
qed

text \<open>The counterexample of C4 as stated: a collection of two records whose histogram adds
  up to one.\<close>

theorem stage_histogram_counterexample:
  "stage_counts CUSTOM_STATUSES sample_unstaged =
     Inr [(''Consultation'', 0), (''Design Sketch'', 0), (''CAD Modeling'', 0), (''3D Approval'', 0),
          (''Casting'', 0), (''Stone Setting'', 0), (''Final Polish'', 0), (''Ready for Pickup'', 0),
          (''Completed'', 1)] \<and>
   length (rows sample_unstaged) = 2"
  by (simp add: stage_counts_eq sample_unstaged_def CUSTOM_STATUSES_def cell_at_def)

subsection \<open>Repair load by bench\<close>

lemma bench_load_eq:
  assumes "''Status'' \<in> set (columns df)" "''Assigned_To'' \<in> set (columns df)"
  shows "bench_load df =
     Inr (map (\<lambda>b. (b, length (filter (\<lambda>r. cell_at r ''Assigned_To'' = Str b \<and>
                                            cell_at r ''Status'' \<noteq> Str ''Completed'') (rows df))))
            BENCH_TEAM)"
proof -
  have l: "loc_mask (map (\<lambda>c. c \<noteq> Str ''Completed'') (map (\<lambda>r. cell_at r ''Status'') (rows df))) df
      = df\<lparr>rows := filter (\<lambda>r. cell_at r ''Status'' \<noteq> Str ''Completed'') (rows df)\<rparr>"
    by (rule select_by_column)
  show ?thesis
    unfolding bench_load_def getitem_present[OF assms(1)] bind_exn_simps Let_def l
    using assms(2)
    by (simp add: getitem_def reindex_value_counts count_list_column conj_commute)
qed

text \<open>
  C10. On a frame with the columns \<^verbatim>\<open>Status\<close> and \<^verbatim>\<open>Assigned_To\<close>, the load histogram lists
  the four members of the bench roster in order, each with the number of repairs
  assigned to that member whose status is not \<^verbatim>\<open>Completed\<close> (0 when there is none);
  removing every completed repair from the collection leaves the histogram as it is.
\<close>

theorem bench_load_open_repairs:
  assumes "''Status'' \<in> set (columns df)" "''Assigned_To'' \<in> set (columns df)"
  shows "bench_load df =
           Inr (map (\<lambda>b. (b, length (filter (\<lambda>r. cell_at r ''Assigned_To'' = Str b \<and>
                                                  cell_at r ''Status'' \<noteq> Str ''Completed'') (rows df))))
                  BENCH_TEAM) \<and>
         bench_load (df\<lparr>rows := filter (\<lambda>r. cell_at r ''Status'' \<noteq> Str ''Completed'') (rows df)\<rparr>)
           = bench_load df"
proof -
  let ?df' = "df\<lparr>rows := filter (\<lambda>r. cell_at r ''Status'' \<noteq> Str ''Completed'') (rows df)\<rparr>"
  have c: "''Status'' \<in> set (columns ?df')" "''Assigned_To'' \<in> set (columns ?df')"
    using assms by simp_all
  show ?thesis
    unfolding bench_load_eq[OF assms] bench_load_eq[OF c]
    by (simp add: conj_commute cong: conj_cong)
qed

theorem bench_load_open_repairs_witness:
  "''Status'' \<in> set (columns sample_repairs) \<and> ''Assigned_To'' \<in> set (columns sample_repairs) \<and>
   bench_load sample_repairs = Inr [(''Bench-1'', 1), (''Bench-2'', 0), (''Bench-3'', 1), (''Bench-4'', 0)]"
proof -
  have c: "''Status'' \<in> set (columns sample_repairs)" "''Assigned_To'' \<in> set (columns sample_repairs)"
    by (simp_all add: sample_repairs_def)
  from bench_load_open_repairs[OF c]
  have "bench_load sample_repairs =
     Inr (map (\<lambda>b. (b, length (filter (\<lambda>r. cell_at r ''Assigned_To'' = Str b \<and>
                                cell_at r ''Status'' \<noteq> Str ''Completed'') (rows sample_repairs))))
            BENCH_TEAM)"
    by simp
  then show ?thesis using c
    by (simp add: BENCH_TEAM_def sample_repairs_def cell_at_def)
qed

subsection \<open>Intake\<close>

















subsection \<open>Where the whole collection is recomputed\<close>






end
